theory Spec2Isabelle
  imports Main "HOL-Library.Word"
begin

unbundle bit_operations_syntax

section \<open>Route controller (package route)\<close>

subsection \<open>Errors and strings\<close>

text \<open>
  An error handed back by the cloud provider is known to the controller only through
  its message, so it is kept as that message. The errors the route package builds
  itself are constructors of \<open>error\<close>; each keeps the values the message is formatted
  from.
\<close>

type_synonym cloud_error = string

datatype error =
    GetVpcIdError cloud_error
  | ListRouteTablesError cloud_error
  | MultipleRouteTables nat
  | NoRouteTables
  | CreateRouteError string "cloud_error option"
  | ListRouteError cloud_error
  | ParseClusterCIDRError string
  | UnparsableCIDR string

text \<open>\<open>strings.Contains\<close> and \<open>strings.Split\<close> with a one-byte separator.\<close>

fun hasPrefix :: "string \<Rightarrow> string \<Rightarrow> bool" where
  "hasPrefix s [] = True"
| "hasPrefix [] (c # cs) = False"
| "hasPrefix (x # xs) (c # cs) = (x = c \<and> hasPrefix xs cs)"

fun strContains :: "string \<Rightarrow> string \<Rightarrow> bool" where
  "strContains [] sub = (sub = [])"
| "strContains (x # xs) sub = (hasPrefix (x # xs) sub \<or> strContains xs sub)"

fun Split :: "string \<Rightarrow> char \<Rightarrow> string list" where
  "Split [] c = [[]]"
| "Split (x # xs) c =
     (if x = c then [] # Split xs c
      else (case Split xs c of [] \<Rightarrow> [[x]] | w # ws \<Rightarrow> (x # w) # ws))"

subsection \<open>Route table resolution\<close>

text \<open>
  \<open>getRouteTables\<close>: \<open>VpcID\<close> is the answer of \<open>providerIns.VpcID()\<close>,
  \<open>RouteTableIDS\<close> the configured \<open>CloudCFG.Global.RouteTableIDS\<close> and
  \<open>ListRouteTables\<close> the provider's listing call.
\<close>

definition getRouteTables ::
  "(cloud_error + string) \<Rightarrow> string \<Rightarrow> (string \<Rightarrow> cloud_error + string list)
     \<Rightarrow> error + string list" where
  "getRouteTables VpcID RouteTableIDS ListRouteTables =
     (case VpcID of
        Inl err \<Rightarrow> Inl (GetVpcIdError err)
      | Inr vpcId \<Rightarrow>
          if RouteTableIDS \<noteq> [] then Inr (Split RouteTableIDS (CHR '',''))
          else (case ListRouteTables vpcId of
                  Inl err \<Rightarrow> Inl (ListRouteTablesError err)
                | Inr tables \<Rightarrow>
                    if length tables > 1 then Inl (MultipleRouteTables (length tables))
                    else if length tables = 0 then Inl NoRouteTables
                    else Inr tables))"

definition listTwoTables :: "string \<Rightarrow> cloud_error + string list" where
  "listTwoTables vpcId = Inr [''vtb-1'', ''vtb-2'']"

definition listOneTable :: "string \<Rightarrow> cloud_error + string list" where
  "listOneTable vpcId = Inr [''vtb-1'']"

subsection \<open>Routes and the provider\<close>

text \<open>
  \<open>model.Route\<close>. \<open>NodeReference\<close> is a pointer to the node object in the source; the
  route package reads only the node's name through it, so the name stands for it
  (the batch entry points are handed routes built from nodes, whose reference is set).
\<close>

record Route =
  Name :: string
  DestinationCIDR :: string
  ProviderId :: string
  NodeReference :: string

text \<open>
  The part of \<open>prvd.IVPC\<close> the single-route entry points use. The cloud is a state
  \<open>'p\<close> that every call may change. A Go result pair \<open>(*Route, error)\<close> is kept as a
  pair of options, since the source tests the two components separately.
\<close>

record 'p IVPC =
  CreateRoute :: "'p \<Rightarrow> string \<Rightarrow> string \<Rightarrow> string \<Rightarrow> (Route option \<times> cloud_error option) \<times> 'p"
  FindRoute :: "'p \<Rightarrow> string \<Rightarrow> string \<Rightarrow> string \<Rightarrow> (Route option \<times> cloud_error option) \<times> 'p"
  DeleteRoute :: "'p \<Rightarrow> string \<Rightarrow> string \<Rightarrow> string \<Rightarrow> cloud_error option \<times> 'p"

text \<open>The calls made on the provider, in the order they are made.\<close>

datatype call =
    CreateRouteCall string string string
  | FindRouteCall string string string
  | DeleteRouteCall string string string

subsection \<open>Creating one route under backoff\<close>

text \<open>
  \<open>wait.ExponentialBackoff\<close> of the Kubernetes client library: the condition runs at
  most \<open>Steps\<close> times; an error or \<open>ok\<close> ends the loop with that error (none for
  \<open>ok\<close>); after the last step the loop gives \<open>ErrWaitTimeout\<close>. The sleeps between the
  steps (\<open>Duration\<close>, \<open>Factor\<close>, \<open>Jitter\<close>) take time only and are left out.
\<close>

datatype wait_error = ErrWaitTimeout | ConditionError cloud_error

fun ExponentialBackoff ::
  "nat \<Rightarrow> ('s \<Rightarrow> (bool \<times> cloud_error option) \<times> 's) \<Rightarrow> 's \<Rightarrow> wait_error option \<times> 's" where
  "ExponentialBackoff 0 condition s = (Some ErrWaitTimeout, s)"
| "ExponentialBackoff (Suc n) condition s =
     (case condition s of
        ((ok, Some err), s') \<Rightarrow> (Some (ConditionError err), s')
      | ((ok, None), s') \<Rightarrow>
          if ok then (None, s')
          else if n = 0 then (Some ErrWaitTimeout, s')
          else ExponentialBackoff n condition s')"

definition createBackoffSteps :: nat where
  "createBackoffSteps = 3"

text \<open>
  The variables \<open>route\<close>, \<open>innerErr\<close> and \<open>findErr\<close> that the closure in
  \<open>createRouteForInstance\<close> captures and assigns (fields \<open>routeVar\<close>, \<open>innerErrVar\<close>,
  \<open>findErrVar\<close>), with the cloud and the log of calls.
\<close>

record 'p createVars =
  routeVar :: "Route option"
  innerErrVar :: "cloud_error option"
  findErrVar :: "cloud_error option"
  cloud :: 'p
  calls :: "call list"

definition createCondition ::
  "'p IVPC \<Rightarrow> string \<Rightarrow> string \<Rightarrow> string \<Rightarrow> 'p createVars
     \<Rightarrow> (bool \<times> cloud_error option) \<times> 'p createVars" where
  "createCondition providerIns table providerID cidr v =
     (case CreateRoute providerIns (cloud v) table providerID cidr of
        ((r, e), p1) \<Rightarrow>
          (let v1 = v\<lparr>routeVar := r, innerErrVar := e, cloud := p1,
                      calls := calls v @ [CreateRouteCall table providerID cidr]\<rparr>
           in case e of
                Some msg \<Rightarrow>
                  if strContains msg ''InvalidCIDRBlock.Duplicate'' then
                    (case FindRoute providerIns p1 table providerID cidr of
                       ((r2, fe), p2) \<Rightarrow>
                         (let v2 = v1\<lparr>routeVar := r2, findErrVar := fe, cloud := p2,
                                      calls := calls v1 @ [FindRouteCall table providerID cidr]\<rparr>
                          in if fe = None \<and> r2 \<noteq> None then ((True, None), v2)
                             else ((False, e), v2)))
                  else ((False, None), v1)
              | None \<Rightarrow> ((True, None), v1)))"

definition createRouteForInstance ::
  "'p IVPC \<Rightarrow> string \<Rightarrow> string \<Rightarrow> string \<Rightarrow> 'p
     \<Rightarrow> (error + Route option) \<times> 'p \<times> call list" where
  "createRouteForInstance providerIns table providerID cidr p =
     (case ExponentialBackoff createBackoffSteps
             (createCondition providerIns table providerID cidr)
             \<lparr>routeVar = None, innerErrVar = None, findErrVar = None, cloud = p, calls = []\<rparr> of
        (Some err, v) \<Rightarrow> (Inl (CreateRouteError providerID (innerErrVar v)), cloud v, calls v)
      | (None, v) \<Rightarrow> (Inr (routeVar v), cloud v, calls v))"

definition deleteRouteForInstance ::
  "'p IVPC \<Rightarrow> string \<Rightarrow> string \<Rightarrow> string \<Rightarrow> 'p \<Rightarrow> cloud_error option \<times> 'p" where
  "deleteRouteForInstance providerIns table providerID cidr p =
     DeleteRoute providerIns p table providerID cidr"

fun isCreateRouteCall :: "call \<Rightarrow> bool" where
  "isCreateRouteCall (CreateRouteCall t p c) = True"
| "isCreateRouteCall _ = False"

text \<open>
  Three clouds to run the backoff on. Each is a counter of the calls received.
  \<open>dupOwned\<close> answers every create with a duplicate-CIDR error and finds the route;
  \<open>dupForeign\<close> answers the same but finds nothing; \<open>alwaysBusy\<close> answers every create
  with another error.
\<close>

definition dupMsg :: cloud_error where
  "dupMsg = ''code: 400, InvalidCIDRBlock.Duplicate''"

definition theRoute :: Route where
  "theRoute = \<lparr>Name = ''r1'', DestinationCIDR = ''10.1.0.0/24'', ProviderId = ''cn.i-1'',
               NodeReference = ''node-1''\<rparr>"

definition createDup :: "nat \<Rightarrow> string \<Rightarrow> string \<Rightarrow> string \<Rightarrow> (Route option \<times> cloud_error option) \<times> nat" where
  "createDup n table providerID cidr = ((None, Some dupMsg), Suc n)"

definition createBusy :: "nat \<Rightarrow> string \<Rightarrow> string \<Rightarrow> string \<Rightarrow> (Route option \<times> cloud_error option) \<times> nat" where
  "createBusy n table providerID cidr = ((None, Some ''code: 400, IncorrectStatus''), Suc n)"

definition findOwned :: "nat \<Rightarrow> string \<Rightarrow> string \<Rightarrow> string \<Rightarrow> (Route option \<times> cloud_error option) \<times> nat" where
  "findOwned n table providerID cidr = ((Some theRoute, None), Suc n)"

definition findNothing :: "nat \<Rightarrow> string \<Rightarrow> string \<Rightarrow> string \<Rightarrow> (Route option \<times> cloud_error option) \<times> nat" where
  "findNothing n table providerID cidr = ((None, None), Suc n)"

definition deleteOk :: "nat \<Rightarrow> string \<Rightarrow> string \<Rightarrow> string \<Rightarrow> cloud_error option \<times> nat" where
  "deleteOk n table providerID cidr = (None, Suc n)"

definition dupOwned :: "nat IVPC" where
  "dupOwned = \<lparr>CreateRoute = createDup, FindRoute = findOwned, DeleteRoute = deleteOk\<rparr>"

definition dupForeign :: "nat IVPC" where
  "dupForeign = \<lparr>CreateRoute = createDup, FindRoute = findNothing, DeleteRoute = deleteOk\<rparr>"

definition alwaysBusy :: "nat IVPC" where
  "alwaysBusy = \<lparr>CreateRoute = createBusy, FindRoute = findNothing, DeleteRoute = deleteOk\<rparr>"

subsection \<open>Batch route application\<close>

text \<open>
  \<open>prvd.RouteUpdateStatus\<close>, one per entry of a batch call.
\<close>

record RouteUpdateStatus =
  Route :: Route
  Failed :: bool
  FailedCode :: string
  FailedMessage :: string

text \<open>
  What \<open>ReconcileRoute\<close> reaches from the batch entry points: the cloud's batch calls
  and \<open>updateNetworkingCondition\<close>, over a world \<open>'w\<close> that each may change. The
  route lock taken by \<open>LockedCreateRoutes\<close> and \<open>LockedDeleteRoutes\<close> orders
  goroutines only and has no sequential effect.
\<close>

record 'w ReconcileRoute =
  CreateRoutes :: "'w \<Rightarrow> string \<Rightarrow> Route list
                     \<Rightarrow> (cloud_error + string list \<times> RouteUpdateStatus list) \<times> 'w"
  DeleteRoutes :: "'w \<Rightarrow> string \<Rightarrow> Route list \<Rightarrow> (cloud_error + RouteUpdateStatus list) \<times> 'w"
  updateNetworkingCondition :: "'w \<Rightarrow> string \<Rightarrow> bool \<Rightarrow> cloud_error option \<times> 'w"


















subsection \<open>IPv4 networks (Go's package net)\<close>

text \<open>
  \<open>net.IPNet\<close> with the functions of package \<open>net\<close> that \<open>containsRoute\<close> calls,
  written after the library for IPv4: an address and a mask are lists of bytes, four
  of each in everything \<open>ParseCIDR\<close> returns for dotted-decimal text. Text with a
  colon (IPv6) is outside this model and is treated as unparsable, and so is a
  network whose \<open>IP\<close> has sixteen bytes.
\<close>

type_synonym byte = "8 word"

record IPNet =
  IP :: "byte list"
  Mask :: "byte list"

definition isDigit :: "char \<Rightarrow> bool" where
  "isDigit ch \<longleftrightarrow> 48 \<le> (of_char ch :: nat) \<and> (of_char ch :: nat) \<le> 57"

definition digitVal :: "char \<Rightarrow> nat" where
  "digitVal ch = of_char ch - 48"

text \<open>
  \<open>dtoi\<close>: the decimal number at the start of the text, the count of digits read and
  whether a number was read; it gives up at \<open>0xFFFFFF\<close>.
\<close>

fun dtoiLoop :: "int \<Rightarrow> nat \<Rightarrow> string \<Rightarrow> int \<times> nat \<times> bool" where
  "dtoiLoop n i [] = (if i = 0 then (0, 0, False) else (n, i, True))"
| "dtoiLoop n i (ch # cs) =
     (if isDigit ch then
        (let n' = n * 10 + int (digitVal ch)
         in if n' \<ge> 16777215 then (16777215, i, False) else dtoiLoop n' (Suc i) cs)
      else if i = 0 then (0, 0, False) else (n, i, True))"

definition dtoi :: "string \<Rightarrow> int \<times> nat \<times> bool" where
  "dtoi s = dtoiLoop 0 0 s"

text \<open>
  One field of a dotted-decimal address: one to three digits, no leading zero, at
  most 255.
\<close>

definition parseOctet :: "string \<Rightarrow> byte option" where
  "parseOctet f =
     (if f = [] \<or> \<not> list_all isDigit f then None
      else if length f > 1 \<and> hd f = CHR ''0'' then None
      else if length f > 3 then None
      else (let v = fold (\<lambda>ch n. n * 10 + digitVal ch) f 0
            in if v > 255 then None else Some (of_nat v)))"

definition parseIPv4 :: "string \<Rightarrow> byte list option" where
  "parseIPv4 s =
     (let fields = map parseOctet (Split s (CHR ''.''))
      in if length fields = 4 \<and> list_all (\<lambda>f. f \<noteq> None) fields
         then Some (map the fields) else None)"

fun CIDRMaskLoop :: "nat \<Rightarrow> nat \<Rightarrow> byte list" where
  "CIDRMaskLoop 0 n = []"
| "CIDRMaskLoop (Suc l) n =
     (if n \<ge> 8 then 255 # CIDRMaskLoop l (n - 8)
      else NOT (drop_bit n (255 :: byte)) # CIDRMaskLoop l 0)"

definition CIDRMask :: "nat \<Rightarrow> nat \<Rightarrow> byte list" where
  "CIDRMask ones bits = CIDRMaskLoop (bits div 8) ones"

definition indexByte :: "string \<Rightarrow> char \<Rightarrow> nat option" where
  "indexByte s c = (if c \<in> set s then Some (length (takeWhile (\<lambda>x. x \<noteq> c) s)) else None)"

text \<open>
  \<open>net.ParseCIDR\<close>, the network it returns (the address itself is dropped by every
  caller here): the address masked by the prefix, and the mask.
\<close>

definition ParseCIDR :: "string \<Rightarrow> IPNet option" where
  "ParseCIDR s =
     (case indexByte s (CHR ''/'') of
        None \<Rightarrow> None
      | Some i \<Rightarrow>
          (let addr = take i s; maskText = drop (Suc i) s
           in case parseIPv4 addr of
                None \<Rightarrow> None
              | Some ip \<Rightarrow>
                  (case dtoi maskText of
                     (n, j, ok) \<Rightarrow>
                       if \<not> ok \<or> j \<noteq> length maskText \<or> n < 0 \<or> n > 32 then None
                       else (let m = CIDRMask (nat n) 32
                             in Some \<lparr>IP = map2 (AND) ip m, Mask = m\<rparr>))))"

function uitoa :: "nat \<Rightarrow> string" where
  "uitoa n = (if n < 10 then [''0123456789'' ! n]
              else uitoa (n div 10) @ [''0123456789'' ! (n mod 10)])"
  by pat_completeness auto
termination
  by (relation "measure id") auto

fun joinDots :: "string list \<Rightarrow> string" where
  "joinDots [] = []"
| "joinDots [x] = x"
| "joinDots (x # y # ys) = x @ ''.'' @ joinDots (y # ys)"

definition ipString :: "byte list \<Rightarrow> string" where
  "ipString ip = joinDots (map (\<lambda>b. uitoa (unat b)) ip)"

definition hexByte :: "byte \<Rightarrow> string" where
  "hexByte b = [''0123456789abcdef'' ! (unat b div 16), ''0123456789abcdef'' ! (unat b mod 16)]"

definition maskString :: "byte list \<Rightarrow> string" where
  "maskString m = concat (map hexByte m)"

definition networkNumberAndMask :: "IPNet \<Rightarrow> (byte list \<times> byte list) option" where
  "networkNumberAndMask n =
     (if length (IP n) \<noteq> 4 then None
      else if length (Mask n) = 4 then Some (IP n, Mask n)
      else if length (Mask n) = 16 then Some (IP n, drop 12 (Mask n))
      else None)"

text \<open>
  \<open>simpleMaskLength\<close>: the number of leading ones of a mask of the form ones then
  zeros, and nothing (the library's \<open>-1\<close>) for any other mask. \<open>leadingOnes\<close> is the
  inner loop that shifts the first byte that is not \<open>0xff\<close> to the left while its top
  bit is set; a byte has eight bits, so eight rounds are all it can take.
\<close>

fun leadingOnes :: "nat \<Rightarrow> nat \<Rightarrow> byte \<Rightarrow> nat \<times> byte" where
  "leadingOnes 0 n v = (n, v)"
| "leadingOnes (Suc k) n v =
     (if v AND 128 \<noteq> 0 then leadingOnes k (Suc n) (push_bit 1 v) else (n, v))"

fun simpleMaskLengthLoop :: "nat \<Rightarrow> byte list \<Rightarrow> nat option" where
  "simpleMaskLengthLoop n [] = Some n"
| "simpleMaskLengthLoop n (v # rest) =
     (if v = 255 then simpleMaskLengthLoop (n + 8) rest
      else (case leadingOnes 8 n v of
              (n', v') \<Rightarrow>
                if v' \<noteq> 0 then None
                else if list_all (\<lambda>b. b = 0) rest then Some n' else None))"

definition simpleMaskLength :: "byte list \<Rightarrow> nat option" where
  "simpleMaskLength m = simpleMaskLengthLoop 0 m"

definition String :: "IPNet \<Rightarrow> string" where
  "String n =
     (case networkNumberAndMask n of
        None \<Rightarrow> ''<nil>''
      | Some (nn, m) \<Rightarrow>
          (case simpleMaskLength m of
             None \<Rightarrow> ipString nn @ ''/'' @ maskString m
           | Some l \<Rightarrow> ipString nn @ ''/'' @ uitoa l))"

definition Contains :: "IPNet \<Rightarrow> byte list \<Rightarrow> bool" where
  "Contains n ip =
     (case networkNumberAndMask n of
        None \<Rightarrow> length ip = 0
      | Some (nn, m) \<Rightarrow>
          length ip = length nn
          \<and> list_all (\<lambda>(a, b, k). a AND k = b AND k) (zip nn (zip ip m)))"

subsection \<open>Containment and conflicts\<close>

text \<open>
  \<open>containsRoute\<close>. The Go function returns \<open>(containsEqual, realContains, err)\<close>;
  with an error both flags are false, so the result is the error or the two flags.
  \<open>lastIP\<close> is the loop that sets every host bit of the network address; \<open>ParseCIDR\<close>
  returns as many mask bytes as address bytes, so the loop never reads past the mask.
\<close>

definition lastIP :: "IPNet \<Rightarrow> byte list" where
  "lastIP cidr = map2 (\<lambda>b k. b OR NOT k) (IP cidr) (Mask cidr)"

definition containsRoute :: "IPNet option \<Rightarrow> string \<Rightarrow> error + bool \<times> bool" where
  "containsRoute outside insideRoute =
     (case outside of
        None \<Rightarrow> Inr (True, True)
      | Some out \<Rightarrow>
          (case ParseCIDR insideRoute of
             None \<Rightarrow> Inl (UnparsableCIDR insideRoute)
           | Some cidr \<Rightarrow>
               if String out = insideRoute then Inr (True, False)
               else if \<not> Contains out (IP cidr) \<or> \<not> Contains out (lastIP cidr)
                    then Inr (False, False)
                    else Inr (True, True)))"

text \<open>
  A node as the route controller reads it. \<open>ExcludeLabel\<close> is the answer of
  \<open>helper.HasExcludeLabel\<close>, \<open>ReadyCondition\<close> the status of the node's \<open>Ready\<close>
  condition when \<open>helper.FindCondition\<close> finds one.
\<close>

datatype ConditionStatus = ConditionTrue | ConditionFalse | ConditionUnknown

record Node =
  NodeName :: string
  SpecProviderID :: string
  ExcludeLabel :: bool
  ReadyCondition :: "ConditionStatus option"
  DeletionTimestamp :: "nat option"

text \<open>
  \<open>getIPv4RouteForNode\<close> is not among the sources at hand; it is a parameter \<open>g\<close> of
  everything that calls it, giving an error or the node's IPv4 network (possibly
  none) with its text.
\<close>

type_synonym ipv4Route = "Node \<Rightarrow> cloud_error + IPNet option \<times> string"

fun conflictWithNodes :: "ipv4Route \<Rightarrow> Route \<Rightarrow> Node list \<Rightarrow> bool" where
  "conflictWithNodes g route [] = False"
| "conflictWithNodes g route (node # nodes) =
     (case g node of
        Inl err \<Rightarrow> conflictWithNodes g route nodes
      | Inr (None, s) \<Rightarrow> conflictWithNodes g route nodes
      | Inr (Some ipv4Cidr, s) \<Rightarrow>
          (case containsRoute (Some ipv4Cidr) (DestinationCIDR route) of
             Inl err \<Rightarrow> conflictWithNodes g route nodes
           | Inr (equal, contains) \<Rightarrow>
               if contains \<or> (equal \<and> ProviderId route \<noteq> SpecProviderID node) then True
               else conflictWithNodes g route nodes))"


subsection \<open>Synchronising one route table\<close>

text \<open>
  What \<open>syncTableRoutes\<close> reaches beyond the batch calls: the listing of the table,
  the single-route provider and \<open>addRouteForNode\<close>, which is not among the sources
  at hand and is taken as it comes.
\<close>

record 'w ReconcileSync = "'w ReconcileRoute" +
  ListRoute :: "'w \<Rightarrow> string \<Rightarrow> (cloud_error + Route list) \<times> 'w"
  vpc :: "'w IVPC"
  addRouteForNode :: "'w \<Rightarrow> string \<Rightarrow> string \<Rightarrow> string \<Rightarrow> Node \<Rightarrow> Route list
                        \<Rightarrow> cloud_error option \<times> 'w"

text \<open>The steps \<open>syncTableRoutes\<close> takes on the cloud and the nodes, in order.\<close>

datatype syncStep =
    DeleteConflictRoute string string string
  | AddRouteForNode string string string string
  | UpdateNodeCondition string


fun isAddStep :: "syncStep \<Rightarrow> bool" where
  "isAddStep (AddRouteForNode t c p n) = True"
| "isAddStep _ = False"

text \<open>The first loop of \<open>syncTableRoutes\<close>, over the listed routes.\<close>

fun deleteConflictRoutes ::
  "('w, 'z) ReconcileSync_scheme \<Rightarrow> ipv4Route \<Rightarrow> IPNet option \<Rightarrow> string \<Rightarrow> Node list
     \<Rightarrow> Route list \<Rightarrow> 'w \<Rightarrow> syncStep list \<times> 'w" where
  "deleteConflictRoutes r g clusterCIDR table nodes [] w = ([], w)"
| "deleteConflictRoutes r g clusterCIDR table nodes (route # routes) w =
     (case containsRoute clusterCIDR (DestinationCIDR route) of
        Inl err \<Rightarrow> deleteConflictRoutes r g clusterCIDR table nodes routes w
      | Inr (contains, real) \<Rightarrow>
          if \<not> contains then deleteConflictRoutes r g clusterCIDR table nodes routes w
          else if conflictWithNodes g route nodes then
            (case deleteRouteForInstance (vpc r) table (ProviderId route)
                    (DestinationCIDR route) w of
               (err, w') \<Rightarrow>
                 (case deleteConflictRoutes r g clusterCIDR table nodes routes w' of
                    (steps, w'') \<Rightarrow>
                      (DeleteConflictRoute table (ProviderId route) (DestinationCIDR route)
                         # steps, w'')))
          else deleteConflictRoutes r g clusterCIDR table nodes routes w)"







definition net10 :: IPNet where
  "net10 = \<lparr>IP = [10, 0, 0, 0], Mask = [255, 0, 0, 0]\<rparr>"
















section \<open>Load balancer model appliers (packages nlbv2 and clbv1)\<close>

subsection \<open>The NLB model\<close>

text \<open>
  The fields of the NLB model that the applier reads or writes. \<open>NamedKey\<close> is the
  structured name a controller-made resource carries; whether a key belongs to the
  service being reconciled on this cluster (\<open>IsManagedByService\<close>, not among the
  sources at hand) is a parameter of the functions that ask.
\<close>

record NamedKey =
  CID :: string
  Namespace :: string
  ServiceName :: string

record ServerGroupServer =
  ServerId :: string
  ServerIsUserManaged :: bool

record ServerGroup =
  ServerGroupId :: string
  ServerGroupName :: string
  ServerGroupType :: string
  VPCId :: string
  IsUserManaged :: bool
  NamedKey :: "NamedKey option"
  Servers :: "ServerGroupServer list"

record ListenerAttribute =
  ListenerId :: string
  ListenerProtocol :: string
  ListenerPort :: int
  StartPort :: int
  EndPort :: int
  ListenerServerGroupId :: string
  ListenerServerGroupName :: string
  ListenerNamedKey :: "NamedKey option"

record LoadBalancerAttribute =
  LoadBalancerId :: string
  VpcId :: string
  PreserveOnDelete :: bool
  LBIsUserManaged :: bool

record NetworkLoadBalancer =
  LBAttribute :: LoadBalancerAttribute
  ServerGroups :: "ServerGroup list"
  Listeners :: "ListenerAttribute list"

datatype lb_error =
    UserManagedTypeMismatch string string string
  | FindServerGroupError string
  | DeleteServerGroupError string cloud_error
  | ManagerError cloud_error
  | MergeListenerError cloud_error
  | ListenerError string int cloud_error

subsection \<open>The cleanup pass (nlbv2)\<close>

text \<open>
  The calls \<open>cleanup\<close> makes on the server group manager, over a world \<open>'w\<close>, and
  the record of the calls made.
\<close>

record 'w ServerGroupManager =
  CleanupServerGroupTags :: "'w \<Rightarrow> ServerGroup \<Rightarrow> cloud_error option \<times> 'w"
  BatchRemoveServers :: "'w \<Rightarrow> ServerGroup \<Rightarrow> ServerGroupServer list \<Rightarrow> cloud_error option \<times> 'w"
  DeleteServerGroup :: "'w \<Rightarrow> string \<Rightarrow> cloud_error option \<times> 'w"

datatype cleanupCall =
    CleanupTagsCall ServerGroup
  | RemoveServersCall ServerGroup "ServerGroupServer list"
  | DeleteGroupCall string

text \<open>
  The loop of \<open>cleanup\<close> over \<open>remote.ServerGroups\<close>; \<open>managed\<close> answers
  \<open>IsManagedByService(reqCtx.Service, base.CLUSTER_ID)\<close> for a key.
\<close>

fun cleanupLoop ::
  "'w ServerGroupManager \<Rightarrow> (NamedKey \<Rightarrow> bool) \<Rightarrow> NetworkLoadBalancer \<Rightarrow> ServerGroup list \<Rightarrow> 'w
     \<Rightarrow> lb_error option \<times> cleanupCall list \<times> 'w" where
  "cleanupLoop sgMgr managed local [] w = (None, [], w)"
| "cleanupLoop sgMgr managed local (r # rs) w =
     (if list_ex (\<lambda>l. ServerGroupId l = ServerGroupId r) (ServerGroups local)
      then cleanupLoop sgMgr managed local rs w
      else if PreserveOnDelete (LBAttribute local) then
        (case CleanupServerGroupTags sgMgr w r of
           (Some err, w') \<Rightarrow> (Some (ManagerError err), [CleanupTagsCall r], w')
         | (None, w') \<Rightarrow>
             (case cleanupLoop sgMgr managed local rs w' of
                (e, cs, w'') \<Rightarrow> (e, CleanupTagsCall r # cs, w'')))
      else if NamedKey r = None \<or> IsUserManaged r \<or> \<not> managed (the (NamedKey r)) then
        (let del = filter (\<lambda>s. \<not> ServerIsUserManaged s) (Servers r)
         in if length del > 0 then
              (case BatchRemoveServers sgMgr w r del of
                 (Some err, w') \<Rightarrow> (Some (ManagerError err), [RemoveServersCall r del], w')
               | (None, w') \<Rightarrow>
                   (case cleanupLoop sgMgr managed local rs w' of
                      (e, cs, w'') \<Rightarrow> (e, RemoveServersCall r del # cs, w'')))
            else cleanupLoop sgMgr managed local rs w)
      else
        (case DeleteServerGroup sgMgr w (ServerGroupId r) of
           (Some err, w') \<Rightarrow>
             (Some (DeleteServerGroupError (ServerGroupId r) err),
              [DeleteGroupCall (ServerGroupId r)], w')
         | (None, w') \<Rightarrow>
             (case cleanupLoop sgMgr managed local rs w' of
                (e, cs, w'') \<Rightarrow> (e, DeleteGroupCall (ServerGroupId r) # cs, w''))))"

definition cleanup ::
  "'w ServerGroupManager \<Rightarrow> (NamedKey \<Rightarrow> bool) \<Rightarrow> NetworkLoadBalancer \<Rightarrow> NetworkLoadBalancer
     \<Rightarrow> 'w \<Rightarrow> lb_error option \<times> cleanupCall list \<times> 'w" where
  "cleanup sgMgr managed local remote w =
     cleanupLoop sgMgr managed local (ServerGroups remote) w"

definition absentFrom :: "NetworkLoadBalancer \<Rightarrow> ServerGroup \<Rightarrow> bool" where
  "absentFrom local r \<longleftrightarrow> \<not> list_ex (\<lambda>l. ServerGroupId l = ServerGroupId r) (ServerGroups local)"

subsection \<open>The cleanup pass (clbv1)\<close>

record BackendAttribute =
  BackendServerId :: string
  BackendIsUserManaged :: bool

record VServerGroup =
  VGroupId :: string
  VGroupName :: string
  VGroupIsUserManaged :: bool
  VGroupNamedKey :: "NamedKey option"
  Backends :: "BackendAttribute list"

record 'w VGroupManager =
  BatchRemoveVServerGroupBackendServers ::
    "'w \<Rightarrow> VServerGroup \<Rightarrow> BackendAttribute list \<Rightarrow> cloud_error option \<times> 'w"
  DeleteVServerGroup :: "'w \<Rightarrow> string \<Rightarrow> cloud_error option \<times> 'w"

datatype vgroupCall =
    RemoveBackendsCall VServerGroup "BackendAttribute list"
  | DeleteVGroupCall string

text \<open>
  Modelled from the spec: \<open>isVGroupManagedByMyService\<close>, the ownership test of the CLB
  cleanup, which is not among the sources at hand. The spec leaves a sub-resource
  alone when it ``is user-managed or not owned by this cluster (ownership-tag
  mismatch)'', and a named key is ``a structured identifier encoding cluster/service
  identity used to recognize controller-owned resources''. So a group is managed by
  the service when it is not user-managed and carries a named key of this service and
  cluster; \<open>managed\<close> says of a key whether it is one, as in the NLB cleanup.
\<close>

definition isVGroupManagedByMyService :: "VServerGroup \<Rightarrow> (NamedKey \<Rightarrow> bool) \<Rightarrow> bool" where
  "isVGroupManagedByMyService vg managed \<longleftrightarrow>
     (if VGroupIsUserManaged vg \<or> VGroupNamedKey vg = None then False
      else managed (the (VGroupNamedKey vg)))"

text \<open>
  The loop of the CLB \<open>cleanup\<close> over \<open>remote.VServerGroups\<close>, given the desired
  groups.
\<close>

fun cleanupVGroups ::
  "'w VGroupManager \<Rightarrow> (NamedKey \<Rightarrow> bool) \<Rightarrow> VServerGroup list \<Rightarrow> VServerGroup list \<Rightarrow> 'w
     \<Rightarrow> lb_error option \<times> vgroupCall list \<times> 'w" where
  "cleanupVGroups vGroupMgr managed localGroups [] w = (None, [], w)"
| "cleanupVGroups vGroupMgr managed localGroups (vg # vgs) w =
     (if list_ex (\<lambda>l. VGroupId vg = VGroupId l) localGroups
      then cleanupVGroups vGroupMgr managed localGroups vgs w
      else if \<not> isVGroupManagedByMyService vg managed then
        (let del = filter (\<lambda>b. \<not> BackendIsUserManaged b) (Backends vg)
         in if length del > 0 then
              (case BatchRemoveVServerGroupBackendServers vGroupMgr w vg del of
                 (Some err, w') \<Rightarrow> (Some (ManagerError err), [RemoveBackendsCall vg del], w')
               | (None, w') \<Rightarrow>
                   (case cleanupVGroups vGroupMgr managed localGroups vgs w' of
                      (e, cs, w'') \<Rightarrow> (e, RemoveBackendsCall vg del # cs, w'')))
            else cleanupVGroups vGroupMgr managed localGroups vgs w)
      else
        (case DeleteVServerGroup vGroupMgr w (VGroupId vg) of
           (Some err, w') \<Rightarrow>
             (Some (DeleteServerGroupError (VGroupId vg) err), [DeleteVGroupCall (VGroupId vg)], w')
         | (None, w') \<Rightarrow>
             (case cleanupVGroups vGroupMgr managed localGroups vgs w' of
                (e, cs, w'') \<Rightarrow> (e, DeleteVGroupCall (VGroupId vg) # cs, w''))))"

text \<open>
  A remote group is unowned when it is user-managed, has no named key, or has a key
  that is not of this service and cluster: the test that guards the removal of
  servers in both cleanup loops.
\<close>

definition unownedGroup :: "(NamedKey \<Rightarrow> bool) \<Rightarrow> ServerGroup \<Rightarrow> bool" where
  "unownedGroup managed r \<longleftrightarrow>
     NamedKey r = None \<or> IsUserManaged r \<or> \<not> managed (the (NamedKey r))"

definition unownedVGroup :: "(NamedKey \<Rightarrow> bool) \<Rightarrow> VServerGroup \<Rightarrow> bool" where
  "unownedVGroup managed vg \<longleftrightarrow>
     VGroupIsUserManaged vg \<or> VGroupNamedKey vg = None \<or> \<not> managed (the (VGroupNamedKey vg))"

text \<open>
  Two remote server groups to run the cleanup on, neither desired any more: one
  user-managed with a controller-added and a user-added server, one made by the
  controller for this service; and a desired model with no server group, once plain
  and once preserve-on-delete. The manager accepts every call.
\<close>

definition demoKey :: NamedKey where
  "demoKey = \<lparr>CID = ''c1'', Namespace = ''default'', ServiceName = ''web''\<rparr>"

definition managedDemo :: "NamedKey \<Rightarrow> bool" where
  "managedDemo k \<longleftrightarrow> k = demoKey"

definition userGroup :: ServerGroup where
  "userGroup = \<lparr>ServerGroupId = ''sgp-user'', ServerGroupName = ''mine'', ServerGroupType = ''Ip'',
                VPCId = ''vpc-1'', IsUserManaged = True, NamedKey = Some demoKey,
                Servers = [\<lparr>ServerId = ''i-1'', ServerIsUserManaged = False\<rparr>,
                           \<lparr>ServerId = ''i-2'', ServerIsUserManaged = True\<rparr>]\<rparr>"

definition ownGroup :: ServerGroup where
  "ownGroup = \<lparr>ServerGroupId = ''sgp-own'', ServerGroupName = ''k8s/80/web/default/c1'',
               ServerGroupType = ''Ip'', VPCId = ''vpc-1'', IsUserManaged = False,
               NamedKey = Some demoKey, Servers = []\<rparr>"

definition emptyLB :: NetworkLoadBalancer where
  "emptyLB = \<lparr>LBAttribute = \<lparr>LoadBalancerId = ''nlb-1'', VpcId = ''vpc-1'',
                              PreserveOnDelete = False, LBIsUserManaged = False\<rparr>,
              ServerGroups = [], Listeners = []\<rparr>"

definition preservedLB :: NetworkLoadBalancer where
  "preservedLB = \<lparr>LBAttribute = \<lparr>LoadBalancerId = ''nlb-1'', VpcId = ''vpc-1'',
                                  PreserveOnDelete = True, LBIsUserManaged = False\<rparr>,
                  ServerGroups = [], Listeners = []\<rparr>"

definition tagsOk :: "nat \<Rightarrow> ServerGroup \<Rightarrow> cloud_error option \<times> nat" where
  "tagsOk w r = (None, Suc w)"

definition removeOk :: "nat \<Rightarrow> ServerGroup \<Rightarrow> ServerGroupServer list \<Rightarrow> cloud_error option \<times> nat" where
  "removeOk w r del = (None, Suc w)"

definition deleteGroupOk :: "nat \<Rightarrow> string \<Rightarrow> cloud_error option \<times> nat" where
  "deleteGroupOk w i = (None, Suc w)"

definition okManager :: "nat ServerGroupManager" where
  "okManager = \<lparr>CleanupServerGroupTags = tagsOk, BatchRemoveServers = removeOk,
                DeleteServerGroup = deleteGroupOk\<rparr>"

definition userVGroup :: VServerGroup where
  "userVGroup = \<lparr>VGroupId = ''rsp-user'', VGroupName = ''mine'', VGroupIsUserManaged = True,
                 VGroupNamedKey = None,
                 Backends = [\<lparr>BackendServerId = ''i-1'', BackendIsUserManaged = False\<rparr>]\<rparr>"

definition ownVGroup :: VServerGroup where
  "ownVGroup = \<lparr>VGroupId = ''rsp-own'', VGroupName = ''k8s/80/web/default/c1'',
                VGroupIsUserManaged = False, VGroupNamedKey = Some demoKey, Backends = []\<rparr>"

definition removeBackendsOk ::
  "nat \<Rightarrow> VServerGroup \<Rightarrow> BackendAttribute list \<Rightarrow> cloud_error option \<times> nat" where
  "removeBackendsOk w vg del = (None, Suc w)"

definition okVGroupManager :: "nat VGroupManager" where
  "okVGroupManager = \<lparr>BatchRemoveVServerGroupBackendServers = removeBackendsOk,
                      DeleteVServerGroup = deleteGroupOk\<rparr>"

text \<open>
  What each call of the cleanup pass may be, given the remote groups it ran over.
  Tags are stripped only under preserve-on-delete, and then of any group, whatever
  its ownership. Servers are removed only when the load balancer is not
  preserve-on-delete, only from an unowned group, and then exactly the servers that
  are not user-managed. A delete names a group that is not unowned, and the load
  balancer is not preserve-on-delete. All three concern groups absent from the
  desired model.
\<close>

fun permittedCall ::
  "(NamedKey \<Rightarrow> bool) \<Rightarrow> NetworkLoadBalancer \<Rightarrow> ServerGroup list \<Rightarrow> cleanupCall \<Rightarrow> bool" where
  "permittedCall managed local rs (CleanupTagsCall r) =
     (r \<in> set rs \<and> absentFrom local r \<and> PreserveOnDelete (LBAttribute local))"
| "permittedCall managed local rs (RemoveServersCall r del) =
     (r \<in> set rs \<and> absentFrom local r \<and> \<not> PreserveOnDelete (LBAttribute local)
      \<and> unownedGroup managed r
      \<and> del = filter (\<lambda>s. \<not> ServerIsUserManaged s) (Servers r) \<and> del \<noteq> [])"
| "permittedCall managed local rs (DeleteGroupCall i) =
     (\<exists>r \<in> set rs. ServerGroupId r = i \<and> absentFrom local r
        \<and> \<not> PreserveOnDelete (LBAttribute local) \<and> \<not> unownedGroup managed r)"

fun permittedVGroupCall ::
  "(NamedKey \<Rightarrow> bool) \<Rightarrow> VServerGroup list \<Rightarrow> VServerGroup list \<Rightarrow> vgroupCall \<Rightarrow> bool" where
  "permittedVGroupCall managed localGroups vgs (RemoveBackendsCall vg del) =
     (vg \<in> set vgs \<and> \<not> list_ex (\<lambda>l. VGroupId vg = VGroupId l) localGroups
      \<and> unownedVGroup managed vg
      \<and> del = filter (\<lambda>b. \<not> BackendIsUserManaged b) (Backends vg) \<and> del \<noteq> [])"
| "permittedVGroupCall managed localGroups vgs (DeleteVGroupCall i) =
     (\<exists>vg \<in> set vgs. VGroupId vg = i \<and> \<not> list_ex (\<lambda>l. VGroupId vg = VGroupId l) localGroups
        \<and> \<not> unownedVGroup managed vg)"

subsection \<open>The order of phases in \<open>Apply\<close>\<close>


















subsection \<open>Planning server groups (nlbv2)\<close>

datatype serverGroupActionType =
    serverGroupActionUpdate
  | serverGroupActionCreateAndAddBackendServers

datatype serverGroupAction =
  ServerGroupAction (sgAction: serverGroupActionType) (sgLocal: ServerGroup) (sgRemote: ServerGroup)

text \<open>
  The inner loop of \<open>applyVGroups\<close>: the first remote group with the desired group's
  id, if the desired group has one, or else with its name; found by name, the desired
  group takes the remote id. The result is the remote group (\<open>old\<close>) and the desired
  group as the loop leaves it.
\<close>

fun findRemoteGroup :: "ServerGroup \<Rightarrow> ServerGroup list \<Rightarrow> (ServerGroup \<times> ServerGroup) option" where
  "findRemoteGroup l [] = None"
| "findRemoteGroup l (rv # rvs) =
     (if ServerGroupId l \<noteq> [] \<and> ServerGroupId l = ServerGroupId rv then Some (rv, l)
      else if ServerGroupId l = [] \<and> ServerGroupName l = ServerGroupName rv
           then Some (rv, l\<lparr>ServerGroupId := ServerGroupId rv\<rparr>)
           else findRemoteGroup l rvs)"

definition sgKeyOf :: "ServerGroup \<Rightarrow> string" where
  "sgKeyOf l = (if ServerGroupId l \<noteq> [] then ''id-'' @ ServerGroupId l
               else ''name-'' @ ServerGroupName l)"

definition withVpc :: "string \<Rightarrow> ServerGroup \<Rightarrow> ServerGroup" where
  "withVpc vpcId l = (if vpcId \<noteq> [] then l\<lparr>VPCId := vpcId\<rparr> else l)"

text \<open>
  The outer loop of \<open>applyVGroups\<close> over the desired groups still to plan (\<open>todo\<close>).
  \<open>planned\<close> are the desired groups already passed, as the loop left them, \<open>remote\<close> is
  \<open>remote.ServerGroups\<close>, to which every group planned for creation is appended,
  \<open>acts\<close> is \<open>updateActions\<close> and \<open>updated\<close> the keys of \<open>updatedServerGroups\<close>. The
  result is the error returned from inside the loop, or the plan handed to
  \<open>ParallelUpdateServerGroups\<close> with both collections.
\<close>

fun applyVGroupsLoop ::
  "string \<Rightarrow> ServerGroup list \<Rightarrow> ServerGroup list \<Rightarrow> ServerGroup list \<Rightarrow> serverGroupAction list
     \<Rightarrow> string list
     \<Rightarrow> lb_error + serverGroupAction list \<times> ServerGroup list \<times> ServerGroup list" where
  "applyVGroupsLoop vpcId [] planned remote acts updated = Inr (acts, planned, remote)"
| "applyVGroupsLoop vpcId (l # todo) planned remote acts updated =
     (case findRemoteGroup l remote of
        None \<Rightarrow>
          if sgKeyOf l \<in> set updated
          then applyVGroupsLoop vpcId todo (planned @ [l]) remote acts updated
          else applyVGroupsLoop vpcId todo (planned @ [withVpc vpcId l])
                 (remote @ [withVpc vpcId l])
                 (acts @ [ServerGroupAction serverGroupActionCreateAndAddBackendServers
                            (withVpc vpcId l) (withVpc vpcId l)])
                 (sgKeyOf l # updated)
      | Some (old, l1) \<Rightarrow>
          if sgKeyOf l \<in> set updated
          then applyVGroupsLoop vpcId todo (planned @ [l1]) remote acts updated
          else if ServerGroupType l1 \<noteq> [] \<and> ServerGroupType l1 \<noteq> ServerGroupType old then
            (if IsUserManaged l1
             then Inl (UserManagedTypeMismatch (ServerGroupId l1) (ServerGroupType l1)
                         (ServerGroupType old))
             else applyVGroupsLoop vpcId todo (planned @ [withVpc vpcId l1])
                    (remote @ [withVpc vpcId l1])
                    (acts @ [ServerGroupAction serverGroupActionCreateAndAddBackendServers
                               (withVpc vpcId l1) (withVpc vpcId l1)])
                    (sgKeyOf l # updated))
          else applyVGroupsLoop vpcId todo (planned @ [l1]) remote
                 (acts @ [ServerGroupAction serverGroupActionUpdate l1 old])
                 (sgKeyOf l # updated))"

definition applyVGroups ::
  "NetworkLoadBalancer \<Rightarrow> NetworkLoadBalancer
     \<Rightarrow> lb_error + serverGroupAction list \<times> NetworkLoadBalancer \<times> NetworkLoadBalancer" where
  "applyVGroups local remote =
     (case applyVGroupsLoop (VpcId (LBAttribute remote)) (ServerGroups local) []
             (ServerGroups remote) [] [] of
        Inl err \<Rightarrow> Inl err
      | Inr (acts, ls, rs) \<Rightarrow>
          Inr (acts, local\<lparr>ServerGroups := ls\<rparr>, remote\<lparr>ServerGroups := rs\<rparr>))"

text \<open>
  A desired group matches a remote group as the inner loop tests it, and agrees with
  its type when it names no type or the same type. \<open>noTypeChange\<close> says that no
  desired group asks for another type than a group it matches.
\<close>

definition matchesGroup :: "ServerGroup \<Rightarrow> ServerGroup \<Rightarrow> bool" where
  "matchesGroup l r \<longleftrightarrow>
     (ServerGroupId l \<noteq> [] \<and> ServerGroupId l = ServerGroupId r)
     \<or> (ServerGroupId l = [] \<and> ServerGroupName l = ServerGroupName r)"

definition typeAgrees :: "ServerGroup \<Rightarrow> ServerGroup \<Rightarrow> bool" where
  "typeAgrees l r \<longleftrightarrow> ServerGroupType l = [] \<or> ServerGroupType l = ServerGroupType r"

definition noTypeChange :: "ServerGroup list \<Rightarrow> ServerGroup list \<Rightarrow> bool" where
  "noTypeChange ls rs \<longleftrightarrow>
     list_all (\<lambda>l. list_all (\<lambda>r. matchesGroup l r \<longrightarrow> typeAgrees l r) rs) ls"

subsection \<open>Planning listeners (nlbv2)\<close>

datatype listenerActionType = listenerActionCreate | listenerActionUpdate | listenerActionDelete

datatype listenerAction =
  ListenerAction (Action: listenerActionType) (Local: "ListenerAttribute option")
    (Remote: "ListenerAttribute option") (LBId: string)

fun findServerGroup :: "ServerGroup list \<Rightarrow> ListenerAttribute \<Rightarrow> lb_error + ListenerAttribute" where
  "findServerGroup [] lis = Inl (FindServerGroupError (ListenerServerGroupName lis))"
| "findServerGroup (sg # sgs) lis =
     (if ServerGroupName sg = ListenerServerGroupName lis
      then Inr (lis\<lparr>ListenerServerGroupId := ServerGroupId sg\<rparr>)
      else findServerGroup sgs lis)"

definition isListenerPortMatch :: "ListenerAttribute \<Rightarrow> ListenerAttribute \<Rightarrow> bool" where
  "isListenerPortMatch l r =
     (if ListenerPort l \<noteq> 0 then ListenerPort l = ListenerPort r
      else StartPort l = StartPort r \<and> EndPort l = EndPort r)"

text \<open>The first loop of \<open>applyListeners\<close>: every listener without a server group id gets one.\<close>

fun associateListeners ::
  "ServerGroup list \<Rightarrow> ListenerAttribute list \<Rightarrow> lb_error + ListenerAttribute list" where
  "associateListeners sgs [] = Inr []"
| "associateListeners sgs (l # ls) =
     (if ListenerServerGroupId l \<noteq> [] then
        (case associateListeners sgs ls of Inl err \<Rightarrow> Inl err | Inr ls' \<Rightarrow> Inr (l # ls'))
      else
        (case findServerGroup sgs l of
           Inl err \<Rightarrow> Inl err
         | Inr l' \<Rightarrow>
             (case associateListeners sgs ls of Inl err \<Rightarrow> Inl err | Inr ls' \<Rightarrow> Inr (l' # ls'))))"

definition matchesListener :: "ListenerAttribute \<Rightarrow> ListenerAttribute \<Rightarrow> bool" where
  "matchesListener l r \<longleftrightarrow> isListenerPortMatch l r \<and> ListenerProtocol r = ListenerProtocol l"

text \<open>
  The second loop, over the remote listeners: every desired listener that matches
  the remote one takes its id; a remote listener without a match is planned for
  deletion, unless the load balancer is user-managed and the listener is not the
  service's own.
\<close>

fun planListenerDeletes ::
  "(NamedKey \<Rightarrow> bool) \<Rightarrow> bool \<Rightarrow> ListenerAttribute list \<Rightarrow> ListenerAttribute list
     \<Rightarrow> ListenerAttribute list \<times> listenerAction list" where
  "planListenerDeletes managed userManaged [] ls = (ls, [])"
| "planListenerDeletes managed userManaged (r # rs) ls =
     (let ls' = map (\<lambda>l. if matchesListener l r then l\<lparr>ListenerId := ListenerId r\<rparr> else l) ls
      in if list_ex (\<lambda>l. matchesListener l r) ls
         then planListenerDeletes managed userManaged rs ls'
         else if userManaged
                 \<and> (ListenerNamedKey r = None \<or> \<not> managed (the (ListenerNamedKey r)))
              then planListenerDeletes managed userManaged rs ls'
              else (case planListenerDeletes managed userManaged rs ls' of
                      (ls'', acts) \<Rightarrow>
                        (ls'', ListenerAction listenerActionDelete None (Some r) [] # acts)))"

text \<open>
  The third loop, for one desired listener: an update for every remote listener with
  its id, or a create if there is none.
\<close>

definition planListenerUpdates ::
  "string \<Rightarrow> ListenerAttribute list \<Rightarrow> ListenerAttribute \<Rightarrow> listenerAction list" where
  "planListenerUpdates lbId rs l =
     (let same = filter (\<lambda>r. ListenerId l = ListenerId r) rs
      in if same = [] then [ListenerAction listenerActionCreate (Some l) None lbId]
         else map (\<lambda>r. ListenerAction listenerActionUpdate (Some l) (Some r) []) same)"

definition applyListeners ::
  "(NamedKey \<Rightarrow> bool) \<Rightarrow> bool \<Rightarrow> NetworkLoadBalancer \<Rightarrow> NetworkLoadBalancer
     \<Rightarrow> lb_error + listenerAction list \<times> NetworkLoadBalancer" where
  "applyListeners managed IsForceOverride local remote =
     (if LBIsUserManaged (LBAttribute local) \<and> \<not> IsForceOverride then Inr ([], local)
      else (case associateListeners (ServerGroups local) (Listeners local) of
              Inl err \<Rightarrow> Inl err
            | Inr ls1 \<Rightarrow>
                (case planListenerDeletes managed (LBIsUserManaged (LBAttribute local))
                        (Listeners remote) ls1 of
                   (ls2, dels) \<Rightarrow>
                     Inr (dels @ concat (map (planListenerUpdates
                                                (LoadBalancerId (LBAttribute remote))
                                                (Listeners remote)) ls2),
                          local\<lparr>Listeners := ls2\<rparr>))))"

fun isCreateAction :: "listenerAction \<Rightarrow> bool" where
  "isCreateAction (ListenerAction a l r i) = (a = listenerActionCreate)"

text \<open>
  A desired model with one server group and one listener on it, and the load
  balancer as the cloud has it before anything was made for the service.
\<close>

definition webGroup :: ServerGroup where
  "webGroup = \<lparr>ServerGroupId = [], ServerGroupName = ''k8s/80/web/default/c1'',
               ServerGroupType = ''Ip'', VPCId = [], IsUserManaged = False,
               NamedKey = Some demoKey, Servers = []\<rparr>"

definition webListener :: ListenerAttribute where
  "webListener = \<lparr>ListenerId = [], ListenerProtocol = ''TCP'', ListenerPort = 80,
                  StartPort = 0, EndPort = 0, ListenerServerGroupId = [],
                  ListenerServerGroupName = ''k8s/80/web/default/c1'',
                  ListenerNamedKey = Some demoKey\<rparr>"

definition webLocal :: NetworkLoadBalancer where
  "webLocal = emptyLB\<lparr>ServerGroups := [webGroup], Listeners := [webListener]\<rparr>"

definition webGroupMade :: ServerGroup where
  "webGroupMade = webGroup\<lparr>VPCId := ''vpc-1''\<rparr>"

definition otherListener :: ListenerAttribute where
  "otherListener = \<lparr>ListenerId = ''lsn-9'', ListenerProtocol = ''TCP'', ListenerPort = 443,
                    StartPort = 0, EndPort = 0, ListenerServerGroupId = ''sgp-9'',
                    ListenerServerGroupName = ''k8s/443/web/default/c1'',
                    ListenerNamedKey = Some demoKey\<rparr>"

section \<open>Theorems: route controller\<close>

subsection \<open>Route table resolution\<close>

text \<open>
  C8, as stated: every invocation of \<open>getRouteTables\<close> returns a single table or
  fails. With \<open>RouteTableIDS\<close> configured as \<open>vtb-a,vtb-b\<close> the function returns both
  configured tables and never consults the listing.
\<close>

theorem getRouteTables_two_tables:
  "getRouteTables (Inr ''vpc-1'') ''vtb-a,vtb-b'' listOneTable = Inr [''vtb-a'', ''vtb-b'']"
  by (simp add: getRouteTables_def)

text \<open>
  C8, amended: when no route table is configured, \<open>getRouteTables\<close> returns exactly
  the one table the cloud lists for the VPC or fails; it fails whenever the listing
  yields no table or more than one. When \<open>RouteTableIDS\<close> is configured (and the VPC
  id is known), the result is the configured list split at commas, whatever the
  listing would say.
\<close>

theorem getRouteTables_single_or_error:
  "(RouteTableIDS = [] \<longrightarrow>
      (case getRouteTables VpcID RouteTableIDS ListRouteTables of
         Inl e \<Rightarrow> True
       | Inr ts \<Rightarrow> length ts = 1 \<and> (\<exists>vpcId. VpcID = Inr vpcId \<and> ListRouteTables vpcId = Inr ts)))
   \<and> (RouteTableIDS = [] \<longrightarrow> VpcID = Inr vpcId \<longrightarrow> ListRouteTables vpcId = Inr tables \<longrightarrow>
        length tables = 0 \<longrightarrow>
        getRouteTables VpcID RouteTableIDS ListRouteTables = Inl NoRouteTables)
   \<and> (RouteTableIDS = [] \<longrightarrow> VpcID = Inr vpcId \<longrightarrow> ListRouteTables vpcId = Inr tables \<longrightarrow>
        length tables > 1 \<longrightarrow>
        getRouteTables VpcID RouteTableIDS ListRouteTables
          = Inl (MultipleRouteTables (length tables)))
   \<and> (RouteTableIDS \<noteq> [] \<longrightarrow> VpcID = Inr vpcId \<longrightarrow>
        getRouteTables VpcID RouteTableIDS ListRouteTables
          = Inr (Split RouteTableIDS (CHR '','')))"
  by (auto simp: getRouteTables_def split: sum.splits)
     (metis Suc_lessI length_greater_0_conv)

theorem getRouteTables_single_or_error_witness:
  "getRouteTables (Inr ''vpc-1'') [] listTwoTables = Inl (MultipleRouteTables 2)
   \<and> getRouteTables (Inr ''vpc-1'') ''vtb-9'' listTwoTables = Inr [''vtb-9'']"
  using getRouteTables_single_or_error
          [of "[]" "Inr ''vpc-1''" listTwoTables "''vpc-1''" "[''vtb-1'', ''vtb-2'']"]
        getRouteTables_single_or_error
          [of "''vtb-9''" "Inr ''vpc-1''" listTwoTables "''vpc-1''" "[]"]
  by (simp add: listTwoTables_def)

subsection \<open>Creating one route under backoff\<close>

lemma createCondition_calls:
  "createCondition pr t pid c v = (res, v') \<Longrightarrow>
   length (filter isCreateRouteCall (calls v'))
     = Suc (length (filter isCreateRouteCall (calls v)))"
  by (auto simp: createCondition_def Let_def split: prod.splits option.splits if_splits)

lemma ExponentialBackoff_calls:
  "ExponentialBackoff n (createCondition pr t pid c) v = (res, v') \<Longrightarrow>
   length (filter isCreateRouteCall (calls v'))
     \<le> length (filter isCreateRouteCall (calls v)) + n"
proof (induction n arbitrary: v)
  case 0
  then show ?case by simp
next
  case (Suc n)
  obtain ok e v1 where c: "createCondition pr t pid c v = ((ok, e), v1)"
    by (metis prod.exhaust)
  from createCondition_calls [OF c]
  have k: "length (filter isCreateRouteCall (calls v1))
             = Suc (length (filter isCreateRouteCall (calls v)))" .
  show ?case
  proof (cases "e = None \<and> \<not> ok \<and> n \<noteq> 0")
    case True
    with Suc.prems c have "ExponentialBackoff n (createCondition pr t pid c) v1 = (res, v')"
      by auto
    from Suc.IH [OF this] k show ?thesis by simp
  next
    case False
    with Suc.prems c have "v' = v1" by (auto split: option.splits if_splits)
    with k show ?thesis by simp
  qed
qed

lemma createRouteForInstance_create_bound:
  "length (filter isCreateRouteCall (snd (snd (createRouteForInstance pr t pid c p)))) \<le> 3"
proof -
  let ?v0 = "\<lparr>routeVar = None, innerErrVar = None, findErrVar = None, cloud = p, calls = []\<rparr>"
  obtain res v' where
    r: "ExponentialBackoff createBackoffSteps (createCondition pr t pid c) ?v0 = (res, v')"
    by (metis prod.exhaust)
  from ExponentialBackoff_calls [OF r]
  have "length (filter isCreateRouteCall (calls v')) \<le> 3"
    by (simp add: createBackoffSteps_def)
  with r show ?thesis
    by (cases res) (simp_all add: createRouteForInstance_def)
qed

text \<open>
  C6: when \<open>CreateRoute\<close> fails with a duplicate-CIDR error, \<open>createRouteForInstance\<close>
  looks the route up with \<open>FindRoute\<close> under the same table, provider id and CIDR. A
  route found there is the result, and nothing more is called. When the lookup finds
  nothing (or fails), the error is returned at once: one create call, one lookup, no
  retry. Any other create error is retried: a second attempt that succeeds is the
  result, three such failures in a row end with the error, and no run makes more than
  three create calls.
\<close>

theorem createRouteForInstance_backoff:
  "(CreateRoute pr p t pid c = ((r, Some msg), p1)
      \<and> strContains msg ''InvalidCIDRBlock.Duplicate''
      \<and> FindRoute pr p1 t pid c = ((Some found, None), p2) \<longrightarrow>
    createRouteForInstance pr t pid c p
      = (Inr (Some found), p2, [CreateRouteCall t pid c, FindRouteCall t pid c]))
   \<and> (CreateRoute pr p t pid c = ((r, Some msg), p1)
      \<and> strContains msg ''InvalidCIDRBlock.Duplicate''
      \<and> FindRoute pr p1 t pid c = ((fr, fe), p2) \<and> (fr = None \<or> fe \<noteq> None) \<longrightarrow>
    createRouteForInstance pr t pid c p
      = (Inl (CreateRouteError pid (Some msg)), p2,
         [CreateRouteCall t pid c, FindRouteCall t pid c]))
   \<and> (CreateRoute pr p t pid c = ((r, Some msg), p1)
      \<and> \<not> strContains msg ''InvalidCIDRBlock.Duplicate''
      \<and> CreateRoute pr p1 t pid c = ((r', None), p2) \<longrightarrow>
    createRouteForInstance pr t pid c p
      = (Inr r', p2, [CreateRouteCall t pid c, CreateRouteCall t pid c]))
   \<and> (CreateRoute pr p t pid c = ((r, Some msg), p1)
      \<and> \<not> strContains msg ''InvalidCIDRBlock.Duplicate''
      \<and> CreateRoute pr p1 t pid c = ((r', Some msg'), p2)
      \<and> \<not> strContains msg' ''InvalidCIDRBlock.Duplicate''
      \<and> CreateRoute pr p2 t pid c = ((r'', Some msg''), p3)
      \<and> \<not> strContains msg'' ''InvalidCIDRBlock.Duplicate'' \<longrightarrow>
    createRouteForInstance pr t pid c p
      = (Inl (CreateRouteError pid (Some msg'')), p3,
         [CreateRouteCall t pid c, CreateRouteCall t pid c, CreateRouteCall t pid c]))
   \<and> length (filter isCreateRouteCall (snd (snd (createRouteForInstance pr t pid c p)))) \<le> 3"
proof (intro conjI impI)
  show "length (filter isCreateRouteCall (snd (snd (createRouteForInstance pr t pid c p)))) \<le> 3"
    by (rule createRouteForInstance_create_bound)
qed (auto simp add: createRouteForInstance_def createBackoffSteps_def numeral_3_eq_3
       createCondition_def)

theorem createRouteForInstance_backoff_witness:
  "createRouteForInstance dupOwned ''vtb-1'' ''cn.i-1'' ''10.1.0.0/24'' 0
     = (Inr (Some theRoute), 2,
        [CreateRouteCall ''vtb-1'' ''cn.i-1'' ''10.1.0.0/24'',
         FindRouteCall ''vtb-1'' ''cn.i-1'' ''10.1.0.0/24''])
   \<and> createRouteForInstance dupForeign ''vtb-1'' ''cn.i-1'' ''10.1.0.0/24'' 0
     = (Inl (CreateRouteError ''cn.i-1'' (Some dupMsg)), 2,
        [CreateRouteCall ''vtb-1'' ''cn.i-1'' ''10.1.0.0/24'',
         FindRouteCall ''vtb-1'' ''cn.i-1'' ''10.1.0.0/24''])
   \<and> createRouteForInstance alwaysBusy ''vtb-1'' ''cn.i-1'' ''10.1.0.0/24'' 0
     = (Inl (CreateRouteError ''cn.i-1'' (Some ''code: 400, IncorrectStatus'')), 3,
        [CreateRouteCall ''vtb-1'' ''cn.i-1'' ''10.1.0.0/24'',
         CreateRouteCall ''vtb-1'' ''cn.i-1'' ''10.1.0.0/24'',
         CreateRouteCall ''vtb-1'' ''cn.i-1'' ''10.1.0.0/24''])"
  using createRouteForInstance_backoff
          [where pr = dupOwned and p = 0 and t = "''vtb-1''" and pid = "''cn.i-1''"
             and c = "''10.1.0.0/24''" and r = None and msg = dupMsg and ?p1.0 = 1
             and found = theRoute and ?p2.0 = 2]
        createRouteForInstance_backoff
          [where pr = dupForeign and p = 0 and t = "''vtb-1''" and pid = "''cn.i-1''"
             and c = "''10.1.0.0/24''" and r = None and msg = dupMsg and ?p1.0 = 1
             and fr = None and fe = None and ?p2.0 = 2]
        createRouteForInstance_backoff
          [where pr = alwaysBusy and p = 0 and t = "''vtb-1''" and pid = "''cn.i-1''"
             and c = "''10.1.0.0/24''" and r = None and msg = "''code: 400, IncorrectStatus''"
             and ?p1.0 = 1 and r' = None and msg' = "''code: 400, IncorrectStatus''"
             and ?p2.0 = 2 and r'' = None and msg'' = "''code: 400, IncorrectStatus''"
             and ?p3.0 = 3]
  by (simp add: dupOwned_def dupForeign_def alwaysBusy_def createDup_def createBusy_def
        findOwned_def findNothing_def dupMsg_def eval_nat_numeral)

subsection \<open>Batch route application\<close>









subsection \<open>Containment of CIDRs\<close>

lemma ParseCIDR_net10: "ParseCIDR ''10.0.0.0/8'' = Some net10"
  by code_simp

lemma containsRoute_inner: "containsRoute (Some net10) ''10.1.0.0/16'' = Inr (True, True)"
  by code_simp

lemma containsRoute_same: "containsRoute (Some net10) ''10.0.0.0/8'' = Inr (True, False)"
  by code_simp

lemma containsRoute_outer: "containsRoute (Some net10) ''11.0.0.0/8'' = Inr (False, False)"
  by code_simp

lemma ParseCIDR_bogus: "ParseCIDR ''10.1.0.0'' = None"
  by code_simp

lemma ParseCIDR_other: "ParseCIDR ''11.0.0.0/8'' = Some \<lparr>IP = [11, 0, 0, 0], Mask = [255, 0, 0, 0]\<rparr>"
  by code_simp

lemma String_net10: "String net10 = ''10.0.0.0/8''"
  by code_simp

text \<open>
  C4, as stated: for the outside network \<open>10.0.0.0/8\<close> and the inside CIDR
  \<open>10.1.0.0/16\<close> the two flags are (false, true). The first flag of the source is
  \<open>containsEqual\<close>, which holds for a contained CIDR as well: the result is
  (true, true).
\<close>

theorem containsRoute_inner_not_false_true:
  "containsRoute (ParseCIDR ''10.0.0.0/8'') ''10.1.0.0/16'' \<noteq> Inr (False, True)"
  by (simp add: ParseCIDR_net10 containsRoute_inner)

text \<open>
  C4, amended: \<open>containsRoute\<close> returns (true, true) for the outside network
  \<open>10.0.0.0/8\<close> and the inside CIDR \<open>10.1.0.0/16\<close>, (true, false) for
  \<open>10.0.0.0/8\<close> in itself, and (true, true) for no outside network and any inside
  text. With an outside network, an inside CIDR that parses and is not the outside
  network's own text gets both flags true exactly when its first address (the network
  address) and its last address (all host bits set) are both within the outside
  network, and both false otherwise; an inside text that does not parse is an error,
  and the first loop of \<open>syncTableRoutes\<close> passes over such a route and goes on with
  the rest.
\<close>

theorem containsRoute_values:
  "containsRoute (ParseCIDR ''10.0.0.0/8'') ''10.1.0.0/16'' = Inr (True, True)
   \<and> containsRoute (ParseCIDR ''10.0.0.0/8'') ''10.0.0.0/8'' = Inr (True, False)
   \<and> containsRoute None inside = Inr (True, True)
   \<and> (ParseCIDR inside = Some cidr \<and> String out \<noteq> inside \<longrightarrow>
        containsRoute (Some out) inside
          = Inr (Contains out (IP cidr) \<and> Contains out (lastIP cidr),
                 Contains out (IP cidr) \<and> Contains out (lastIP cidr)))
   \<and> (ParseCIDR inside = None \<longrightarrow>
        containsRoute (Some out) inside = Inl (UnparsableCIDR inside))
   \<and> (ParseCIDR (DestinationCIDR rt) = None \<longrightarrow>
        deleteConflictRoutes r g (Some out) table nodes (rt # routes) w
          = deleteConflictRoutes r g (Some out) table nodes routes w)"
proof (intro conjI impI)
  show "containsRoute (ParseCIDR ''10.0.0.0/8'') ''10.1.0.0/16'' = Inr (True, True)"
    by (simp add: ParseCIDR_net10 containsRoute_inner)
  show "containsRoute (ParseCIDR ''10.0.0.0/8'') ''10.0.0.0/8'' = Inr (True, False)"
    by (simp add: ParseCIDR_net10 containsRoute_same)
  show "containsRoute None inside = Inr (True, True)"
    by (simp add: containsRoute_def)
next
  assume "ParseCIDR inside = Some cidr \<and> String out \<noteq> inside"
  then show "containsRoute (Some out) inside
          = Inr (Contains out (IP cidr) \<and> Contains out (lastIP cidr),
                 Contains out (IP cidr) \<and> Contains out (lastIP cidr))"
    by (auto simp: containsRoute_def)
next
  assume "ParseCIDR inside = None"
  then show "containsRoute (Some out) inside = Inl (UnparsableCIDR inside)"
    by (simp add: containsRoute_def)
next
  assume "ParseCIDR (DestinationCIDR rt) = None"
  then show "deleteConflictRoutes r g (Some out) table nodes (rt # routes) w
          = deleteConflictRoutes r g (Some out) table nodes routes w"
    by (simp add: containsRoute_def)
qed

theorem containsRoute_values_witness:
  "containsRoute (Some net10) ''11.0.0.0/8'' = Inr (False, False)
   \<and> containsRoute (Some net10) ''10.1.0.0'' = Inl (UnparsableCIDR ''10.1.0.0'')"
proof -
  have c: "Contains net10 [11, 0, 0, 0] = False"
    by code_simp
  from containsRoute_values
         [where inside = "''11.0.0.0/8''" and out = net10
            and cidr = "\<lparr>IP = [11, 0, 0, 0], Mask = [255, 0, 0, 0]\<rparr>",
          THEN conjunct2, THEN conjunct2, THEN conjunct2, THEN conjunct1]
  have a: "containsRoute (Some net10) ''11.0.0.0/8'' = Inr (False, False)"
    by (simp add: ParseCIDR_other String_net10 c)
  from containsRoute_values
         [where inside = "''10.1.0.0''" and out = net10,
          THEN conjunct2, THEN conjunct2, THEN conjunct2, THEN conjunct2, THEN conjunct1]
  have b: "containsRoute (Some net10) ''10.1.0.0'' = Inl (UnparsableCIDR ''10.1.0.0'')"
    by (simp add: ParseCIDR_bogus)
  from a b show ?thesis by simp
qed

subsection \<open>Route conflicts\<close>























section \<open>Theorems: load balancer model appliers\<close>

subsection \<open>Ownership in the cleanup pass\<close>

lemma permittedCall_Cons:
  "permittedCall managed local rs c \<Longrightarrow> permittedCall managed local (r # rs) c"
  by (cases c) auto

lemma permittedVGroupCall_Cons:
  "permittedVGroupCall managed ls vgs c \<Longrightarrow> permittedVGroupCall managed ls (vg # vgs) c"
  by (cases c) auto

lemma cleanupLoop_permitted:
  "cleanupLoop sgMgr managed local rs w = (e, cs, w') \<Longrightarrow> c \<in> set cs
     \<Longrightarrow> permittedCall managed local rs c"
proof (induction rs arbitrary: w e cs w')
  case Nil
  then show ?case by simp
next
  case (Cons r rs)
  note ih = Cons.IH [THEN permittedCall_Cons [of managed local rs _ r]]
  show ?case
  proof (cases "list_ex (\<lambda>l. ServerGroupId l = ServerGroupId r) (ServerGroups local)")
    case True
    with Cons.prems ih show ?thesis by simp
  next
    case absent: False
    show ?thesis
    proof (cases "PreserveOnDelete (LBAttribute local)")
      case True
      obtain err w1 where t: "CleanupServerGroupTags sgMgr w r = (err, w1)"
        by (metis prod.exhaust)
      obtain e2 cs2 w2 where l: "cleanupLoop sgMgr managed local rs w1 = (e2, cs2, w2)"
        by (metis prod_cases3)
      from Cons.prems absent True t l
      have "c = CleanupTagsCall r \<or> c \<in> set cs2"
        by (cases err) auto
      then show ?thesis
      proof
        assume "c = CleanupTagsCall r"
        with absent True show ?thesis by (simp add: absentFrom_def)
      next
        assume "c \<in> set cs2"
        with l ih show ?thesis by blast
      qed
    next
      case keep: False
      let ?del = "filter (\<lambda>s. \<not> ServerIsUserManaged s) (Servers r)"
      show ?thesis
      proof (cases "NamedKey r = None \<or> IsUserManaged r \<or> \<not> managed (the (NamedKey r))")
        case True
        then have unowned: "unownedGroup managed r"
          by (simp add: unownedGroup_def)
        show ?thesis
        proof (cases "?del = []")
          case True
          with Cons.prems absent keep \<open>NamedKey r = None \<or> IsUserManaged r \<or> \<not> managed (the (NamedKey r))\<close>
          have "cleanupLoop sgMgr managed local rs w = (e, cs, w')"
            by (simp add: Let_def)
          with Cons.prems(2) ih show ?thesis by blast
        next
          case False
          obtain err w1 where t: "BatchRemoveServers sgMgr w r ?del = (err, w1)"
            by (metis prod.exhaust)
          obtain e2 cs2 w2 where l: "cleanupLoop sgMgr managed local rs w1 = (e2, cs2, w2)"
            by (metis prod_cases3)
          from Cons.prems absent keep False t l
            \<open>NamedKey r = None \<or> IsUserManaged r \<or> \<not> managed (the (NamedKey r))\<close>
          have "c = RemoveServersCall r ?del \<or> c \<in> set cs2"
            by (cases err) (auto simp: Let_def)
          then show ?thesis
          proof
            assume "c = RemoveServersCall r ?del"
            with absent keep unowned False show ?thesis by (simp add: absentFrom_def)
          next
            assume "c \<in> set cs2"
            with l ih show ?thesis by blast
          qed
        qed
      next
        case False
        then have owned: "\<not> unownedGroup managed r"
          by (simp add: unownedGroup_def)
        obtain err w1 where t: "DeleteServerGroup sgMgr w (ServerGroupId r) = (err, w1)"
          by (metis prod.exhaust)
        obtain e2 cs2 w2 where l: "cleanupLoop sgMgr managed local rs w1 = (e2, cs2, w2)"
          by (metis prod_cases3)
        from Cons.prems absent keep False t l
        have "c = DeleteGroupCall (ServerGroupId r) \<or> c \<in> set cs2"
          by (cases err) auto
        then show ?thesis
        proof
          assume "c = DeleteGroupCall (ServerGroupId r)"
          with absent keep owned show ?thesis by (auto simp: absentFrom_def)
        next
          assume "c \<in> set cs2"
          with l ih show ?thesis by blast
        qed
      qed
    qed
  qed
qed

lemma isVGroupManagedByMyService_unowned:
  "isVGroupManagedByMyService vg managed \<longleftrightarrow> \<not> unownedVGroup managed vg"
  by (simp add: isVGroupManagedByMyService_def unownedVGroup_def)

lemma cleanupVGroups_permitted:
  "cleanupVGroups vGroupMgr managed ls vgs w = (e, cs, w') \<Longrightarrow> c \<in> set cs
     \<Longrightarrow> permittedVGroupCall managed ls vgs c"
proof (induction vgs arbitrary: w e cs w')
  case Nil
  then show ?case by simp
next
  case (Cons vg vgs)
  note ih = Cons.IH [THEN permittedVGroupCall_Cons [of managed ls vgs _ vg]]
  let ?del = "filter (\<lambda>b. \<not> BackendIsUserManaged b) (Backends vg)"
  show ?case
  proof (cases "list_ex (\<lambda>l. VGroupId vg = VGroupId l) ls")
    case True
    with Cons.prems ih show ?thesis by simp
  next
    case absent: False
    show ?thesis
    proof (cases "isVGroupManagedByMyService vg managed")
      case False
      then have unowned: "unownedVGroup managed vg"
        by (simp add: isVGroupManagedByMyService_unowned)
      show ?thesis
      proof (cases "?del = []")
        case True
        with Cons.prems absent False
        have "cleanupVGroups vGroupMgr managed ls vgs w = (e, cs, w')"
          by (simp add: Let_def)
        with Cons.prems(2) ih show ?thesis by blast
      next
        case nonempty: False
        obtain err w1 where
          t: "BatchRemoveVServerGroupBackendServers vGroupMgr w vg ?del = (err, w1)"
          by (metis prod.exhaust)
        obtain e2 cs2 w2 where l: "cleanupVGroups vGroupMgr managed ls vgs w1 = (e2, cs2, w2)"
          by (metis prod_cases3)
        from Cons.prems absent False nonempty t l
        have "c = RemoveBackendsCall vg ?del \<or> c \<in> set cs2"
          by (cases err) (auto simp: Let_def)
        then show ?thesis
        proof
          assume "c = RemoveBackendsCall vg ?del"
          with absent unowned nonempty show ?thesis by simp
        next
          assume "c \<in> set cs2"
          with l ih show ?thesis by blast
        qed
      qed
    next
      case True
      then have owned: "\<not> unownedVGroup managed vg"
        by (simp add: isVGroupManagedByMyService_unowned)
      obtain err w1 where t: "DeleteVServerGroup vGroupMgr w (VGroupId vg) = (err, w1)"
        by (metis prod.exhaust)
      obtain e2 cs2 w2 where l: "cleanupVGroups vGroupMgr managed ls vgs w1 = (e2, cs2, w2)"
        by (metis prod_cases3)
      from Cons.prems absent True t l
      have "c = DeleteVGroupCall (VGroupId vg) \<or> c \<in> set cs2"
        by (cases err) auto
      then show ?thesis
      proof
        assume "c = DeleteVGroupCall (VGroupId vg)"
        with absent owned show ?thesis by auto
      next
        assume "c \<in> set cs2"
        with l ih show ?thesis by blast
      qed
    qed
  qed
qed

text \<open>
  With distinct ids among the remote groups, no delete is issued under the id of an
  unowned group.
\<close>

lemma permittedCall_no_delete:
  assumes "permittedCall managed local rs (DeleteGroupCall (ServerGroupId r))"
    and "distinct (map ServerGroupId rs)" and "r \<in> set rs"
  shows "\<not> unownedGroup managed r"
proof -
  from assms(1) obtain r' where r': "r' \<in> set rs" "ServerGroupId r' = ServerGroupId r"
    "\<not> unownedGroup managed r'"
    by auto
  from assms(2) have "inj_on ServerGroupId (set rs)" by (simp add: distinct_map)
  with r'(1,2) assms(3) have "r' = r" by (auto dest: inj_onD)
  with r'(3) show ?thesis by simp
qed

lemma permittedVGroupCall_no_delete:
  assumes "permittedVGroupCall managed ls vgs (DeleteVGroupCall (VGroupId vg))"
    and "distinct (map VGroupId vgs)" and "vg \<in> set vgs"
  shows "\<not> unownedVGroup managed vg"
proof -
  from assms(1) obtain vg' where v: "vg' \<in> set vgs" "VGroupId vg' = VGroupId vg"
    "\<not> unownedVGroup managed vg'"
    by auto
  from assms(2) have "inj_on VGroupId (set vgs)" by (simp add: distinct_map)
  with v(1,2) assms(3) have "vg' = vg" by (auto dest: inj_onD)
  with v(3) show ?thesis by simp
qed

lemma cleanup_preserved_demo:
  "cleanup okManager managedDemo preservedLB (preservedLB\<lparr>ServerGroups := [userGroup]\<rparr>) 0
     = (None, [CleanupTagsCall userGroup], 1)"
  by code_simp

text \<open>
  C3, as stated: for a remote server group absent from the desired set that is
  user-managed, at most its servers that are not user-managed are removed. The
  desired model is preserve-on-delete and has no server group; the remote one has
  the user-managed group \<open>sgp-user\<close>. The cleanup pass calls
  \<open>CleanupServerGroupTags\<close> on it: the test of preserve-on-delete comes before the
  test of ownership, and the tags of a group the controller does not own are
  stripped.
\<close>

theorem cleanup_strips_tags_of_user_group:
  "IsUserManaged userGroup
   \<and> absentFrom preservedLB userGroup
   \<and> cleanup okManager managedDemo preservedLB (preservedLB\<lparr>ServerGroups := [userGroup]\<rparr>) 0
       = (None, [CleanupTagsCall userGroup], 1)"
proof (intro conjI)
  show "IsUserManaged userGroup" by (simp add: userGroup_def)
  show "absentFrom preservedLB userGroup" by (simp add: absentFrom_def preservedLB_def)
  show "cleanup okManager managedDemo preservedLB (preservedLB\<lparr>ServerGroups := [userGroup]\<rparr>) 0
       = (None, [CleanupTagsCall userGroup], 1)"
    by (rule cleanup_preserved_demo)
qed

text \<open>
  C3, amended. In the NLB cleanup pass every call concerns a remote server group
  absent from the desired model: tags are stripped only under preserve-on-delete
  (of any absent group, whatever its ownership), servers are removed only from an
  unowned group and then exactly those not user-managed, and a delete is issued
  only under the id of a group that is not user-managed and carries a named key of
  this service and cluster. So, the ids of the remote groups being distinct, no delete
  is issued for a remote group that is user-managed, has no key or has a foreign key.
  For such a group, absent from the desired model, the pass makes one call to strip
  its tags when the load balancer is preserve-on-delete, and otherwise no call or one
  removal of exactly its servers that are not user-managed. The CLB cleanup pass,
  which has no preserve-on-delete, does the same: no delete for an unowned group,
  and no call or one removal of exactly its backends that are not user-managed.
\<close>

theorem cleanup_ownership_safety:
  "(\<forall>c \<in> set (fst (snd (cleanup sgMgr managed local remote w))).
      permittedCall managed local (ServerGroups remote) c)
   \<and> (distinct (map ServerGroupId (ServerGroups remote)) \<and> r \<in> set (ServerGroups remote)
      \<and> (IsUserManaged r \<or> NamedKey r = None \<or> \<not> managed (the (NamedKey r))) \<longrightarrow>
      DeleteGroupCall (ServerGroupId r) \<notin> set (fst (snd (cleanup sgMgr managed local remote w))))
   \<and> (absentFrom local r
      \<and> (IsUserManaged r \<or> NamedKey r = None \<or> \<not> managed (the (NamedKey r))) \<longrightarrow>
      fst (snd (cleanupLoop sgMgr managed local [r] w))
        = (if PreserveOnDelete (LBAttribute local) then [CleanupTagsCall r]
           else if filter (\<lambda>s. \<not> ServerIsUserManaged s) (Servers r) = [] then []
           else [RemoveServersCall r (filter (\<lambda>s. \<not> ServerIsUserManaged s) (Servers r))]))
   \<and> (\<forall>c \<in> set (fst (snd (cleanupVGroups vGroupMgr managed ls vgs v))).
      permittedVGroupCall managed ls vgs c)
   \<and> (distinct (map VGroupId vgs) \<and> vg \<in> set vgs
      \<and> (VGroupIsUserManaged vg \<or> VGroupNamedKey vg = None
         \<or> \<not> managed (the (VGroupNamedKey vg))) \<longrightarrow>
      DeleteVGroupCall (VGroupId vg) \<notin> set (fst (snd (cleanupVGroups vGroupMgr managed ls vgs v))))
   \<and> (\<not> list_ex (\<lambda>l. VGroupId vg = VGroupId l) ls
      \<and> (VGroupIsUserManaged vg \<or> VGroupNamedKey vg = None
         \<or> \<not> managed (the (VGroupNamedKey vg))) \<longrightarrow>
      fst (snd (cleanupVGroups vGroupMgr managed ls [vg] v))
        = (if filter (\<lambda>b. \<not> BackendIsUserManaged b) (Backends vg) = [] then []
           else [RemoveBackendsCall vg (filter (\<lambda>b. \<not> BackendIsUserManaged b) (Backends vg))]))"
proof (intro conjI impI ballI)
  fix c
  assume c: "c \<in> set (fst (snd (cleanup sgMgr managed local remote w)))"
  obtain e cs w' where
    l: "cleanupLoop sgMgr managed local (ServerGroups remote) w = (e, cs, w')"
    by (metis prod_cases3)
  with c have "c \<in> set cs" by (simp add: cleanup_def)
  with l show "permittedCall managed local (ServerGroups remote) c"
    by (rule cleanupLoop_permitted)
next
  assume h: "distinct (map ServerGroupId (ServerGroups remote)) \<and> r \<in> set (ServerGroups remote)
      \<and> (IsUserManaged r \<or> NamedKey r = None \<or> \<not> managed (the (NamedKey r)))"
  then have u: "unownedGroup managed r" by (auto simp: unownedGroup_def)
  obtain e cs w' where
    l: "cleanupLoop sgMgr managed local (ServerGroups remote) w = (e, cs, w')"
    by (metis prod_cases3)
  have "DeleteGroupCall (ServerGroupId r) \<notin> set cs"
  proof
    assume "DeleteGroupCall (ServerGroupId r) \<in> set cs"
    with l have "permittedCall managed local (ServerGroups remote) (DeleteGroupCall (ServerGroupId r))"
      by (rule cleanupLoop_permitted)
    with h have "\<not> unownedGroup managed r"
      by (intro permittedCall_no_delete [of managed local "ServerGroups remote" r]) simp_all
    with u show False by simp
  qed
  with l show "DeleteGroupCall (ServerGroupId r)
                 \<notin> set (fst (snd (cleanup sgMgr managed local remote w)))"
    by (simp add: cleanup_def)
next
  assume "absentFrom local r
      \<and> (IsUserManaged r \<or> NamedKey r = None \<or> \<not> managed (the (NamedKey r)))"
  then show "fst (snd (cleanupLoop sgMgr managed local [r] w))
        = (if PreserveOnDelete (LBAttribute local) then [CleanupTagsCall r]
           else if filter (\<lambda>s. \<not> ServerIsUserManaged s) (Servers r) = [] then []
           else [RemoveServersCall r (filter (\<lambda>s. \<not> ServerIsUserManaged s) (Servers r))])"
    by (auto simp: absentFrom_def Let_def split: prod.splits option.splits)
next
  fix c
  assume c: "c \<in> set (fst (snd (cleanupVGroups vGroupMgr managed ls vgs v)))"
  obtain e cs v' where l: "cleanupVGroups vGroupMgr managed ls vgs v = (e, cs, v')"
    by (metis prod_cases3)
  with c have "c \<in> set cs" by simp
  with l show "permittedVGroupCall managed ls vgs c"
    by (rule cleanupVGroups_permitted)
next
  assume h: "distinct (map VGroupId vgs) \<and> vg \<in> set vgs
      \<and> (VGroupIsUserManaged vg \<or> VGroupNamedKey vg = None
         \<or> \<not> managed (the (VGroupNamedKey vg)))"
  then have u: "unownedVGroup managed vg" by (auto simp: unownedVGroup_def)
  obtain e cs v' where l: "cleanupVGroups vGroupMgr managed ls vgs v = (e, cs, v')"
    by (metis prod_cases3)
  have "DeleteVGroupCall (VGroupId vg) \<notin> set cs"
  proof
    assume "DeleteVGroupCall (VGroupId vg) \<in> set cs"
    with l have "permittedVGroupCall managed ls vgs (DeleteVGroupCall (VGroupId vg))"
      by (rule cleanupVGroups_permitted)
    with h have "\<not> unownedVGroup managed vg"
      by (intro permittedVGroupCall_no_delete [of managed ls vgs vg]) simp_all
    with u show False by simp
  qed
  with l show "DeleteVGroupCall (VGroupId vg)
                 \<notin> set (fst (snd (cleanupVGroups vGroupMgr managed ls vgs v)))"
    by simp
next
  assume "\<not> list_ex (\<lambda>l. VGroupId vg = VGroupId l) ls
      \<and> (VGroupIsUserManaged vg \<or> VGroupNamedKey vg = None
         \<or> \<not> managed (the (VGroupNamedKey vg)))"
  then show "fst (snd (cleanupVGroups vGroupMgr managed ls [vg] v))
        = (if filter (\<lambda>b. \<not> BackendIsUserManaged b) (Backends vg) = [] then []
           else [RemoveBackendsCall vg (filter (\<lambda>b. \<not> BackendIsUserManaged b) (Backends vg))])"
    by (auto simp: isVGroupManagedByMyService_def Let_def split: prod.splits option.splits)
qed

lemma cleanup_demo:
  "cleanup okManager managedDemo emptyLB (emptyLB\<lparr>ServerGroups := [userGroup, ownGroup]\<rparr>) 0
     = (None,
        [RemoveServersCall userGroup [\<lparr>ServerId = ''i-1'', ServerIsUserManaged = False\<rparr>],
         DeleteGroupCall ''sgp-own''], 2)"
  by code_simp

lemma cleanupVGroups_demo:
  "cleanupVGroups okVGroupManager managedDemo [] [userVGroup, ownVGroup] 0
     = (None,
        [RemoveBackendsCall userVGroup [\<lparr>BackendServerId = ''i-1'', BackendIsUserManaged = False\<rparr>],
         DeleteVGroupCall ''rsp-own''], 2)"
  by code_simp

theorem cleanup_ownership_safety_witness:
  "permittedCall managedDemo emptyLB [userGroup, ownGroup] (DeleteGroupCall ''sgp-own'')
   \<and> DeleteGroupCall ''sgp-user''
       \<notin> set (fst (snd (cleanup okManager managedDemo emptyLB
                          (emptyLB\<lparr>ServerGroups := [userGroup, ownGroup]\<rparr>) 0)))
   \<and> fst (snd (cleanupLoop okManager managedDemo emptyLB [userGroup] 0))
       = [RemoveServersCall userGroup [\<lparr>ServerId = ''i-1'', ServerIsUserManaged = False\<rparr>]]
   \<and> fst (snd (cleanupLoop okManager managedDemo preservedLB [userGroup] 0))
       = [CleanupTagsCall userGroup]
   \<and> permittedVGroupCall managedDemo [] [userVGroup, ownVGroup] (DeleteVGroupCall ''rsp-own'')
   \<and> DeleteVGroupCall ''rsp-user''
       \<notin> set (fst (snd (cleanupVGroups okVGroupManager managedDemo []
                          [userVGroup, ownVGroup] 0)))
   \<and> fst (snd (cleanupVGroups okVGroupManager managedDemo [] [userVGroup] 0))
       = [RemoveBackendsCall userVGroup [\<lparr>BackendServerId = ''i-1'', BackendIsUserManaged = False\<rparr>]]"
proof -
  note t = cleanup_ownership_safety
      [where sgMgr = okManager and managed = managedDemo and local = emptyLB
         and remote = "emptyLB\<lparr>ServerGroups := [userGroup, ownGroup]\<rparr>" and w = 0
         and r = userGroup and vGroupMgr = okVGroupManager
         and ls = "[]" and vgs = "[userVGroup, ownVGroup]" and v = 0 and vg = userVGroup]
  note p = cleanup_ownership_safety
      [where sgMgr = okManager and managed = managedDemo and local = preservedLB
         and w = 0 and r = userGroup]
  have i: "ServerGroupId userGroup \<noteq> ''sgp-own''" "VGroupId userVGroup \<noteq> ''rsp-own''"
    "ServerGroupId userGroup = ''sgp-user''" "VGroupId userVGroup = ''rsp-user''"
    "ServerGroupId ownGroup = ''sgp-own''" "VGroupId ownVGroup = ''rsp-own''"
    by (simp_all add: userGroup_def userVGroup_def ownGroup_def ownVGroup_def)
  from t [THEN conjunct1] cleanup_demo i
  have a: "permittedCall managedDemo emptyLB [userGroup, ownGroup] (DeleteGroupCall ''sgp-own'')"
    by auto
  have u: "IsUserManaged userGroup" "VGroupIsUserManaged userVGroup"
    by (simp_all add: userGroup_def userVGroup_def)
  have s: "ServerGroups (emptyLB\<lparr>ServerGroups := [userGroup, ownGroup]\<rparr>) = [userGroup, ownGroup]"
    by simp
  from t [THEN conjunct2, THEN conjunct1] u i
  have b: "DeleteGroupCall ''sgp-user''
       \<notin> set (fst (snd (cleanup okManager managedDemo emptyLB
                          (emptyLB\<lparr>ServerGroups := [userGroup, ownGroup]\<rparr>) 0)))"
    unfolding s by simp
  have h: "absentFrom emptyLB userGroup" "\<not> PreserveOnDelete (LBAttribute emptyLB)"
    "absentFrom preservedLB userGroup" "PreserveOnDelete (LBAttribute preservedLB)"
    by (simp_all add: absentFrom_def emptyLB_def preservedLB_def)
  have f: "filter (\<lambda>s. \<not> ServerIsUserManaged s) (Servers userGroup)
             = [\<lparr>ServerId = ''i-1'', ServerIsUserManaged = False\<rparr>]"
    by (simp add: userGroup_def)
  from t [THEN conjunct2, THEN conjunct2, THEN conjunct1] h u f
  have c: "fst (snd (cleanupLoop okManager managedDemo emptyLB [userGroup] 0))
       = [RemoveServersCall userGroup [\<lparr>ServerId = ''i-1'', ServerIsUserManaged = False\<rparr>]]"
    by simp
  from p [THEN conjunct2, THEN conjunct2, THEN conjunct1] h u
  have d: "fst (snd (cleanupLoop okManager managedDemo preservedLB [userGroup] 0))
       = [CleanupTagsCall userGroup]"
    by simp
  from t [THEN conjunct2, THEN conjunct2, THEN conjunct2, THEN conjunct1] cleanupVGroups_demo i
  have e: "permittedVGroupCall managedDemo [] [userVGroup, ownVGroup]
             (DeleteVGroupCall ''rsp-own'')"
    by auto
  from t [THEN conjunct2, THEN conjunct2, THEN conjunct2, THEN conjunct2, THEN conjunct1] u i
  have g: "DeleteVGroupCall ''rsp-user''
       \<notin> set (fst (snd (cleanupVGroups okVGroupManager managedDemo []
                          [userVGroup, ownVGroup] 0)))"
    by simp
  have f': "filter (\<lambda>b. \<not> BackendIsUserManaged b) (Backends userVGroup)
             = [\<lparr>BackendServerId = ''i-1'', BackendIsUserManaged = False\<rparr>]"
    by (simp add: userVGroup_def)
  from t [THEN conjunct2, THEN conjunct2, THEN conjunct2, THEN conjunct2, THEN conjunct2] u f'
  have k: "fst (snd (cleanupVGroups okVGroupManager managedDemo [] [userVGroup] 0))
       = [RemoveBackendsCall userVGroup [\<lparr>BackendServerId = ''i-1'', BackendIsUserManaged = False\<rparr>]]"
    by simp
  from a b c d e g k show ?thesis by (simp only: simp_thms)
qed

subsection \<open>The service-hash gate in \<open>Apply\<close>\<close>













subsection \<open>Planning twice\<close>

lemma findRemoteGroup_find:
  "findRemoteGroup l rs =
     (case find (matchesGroup l) rs of
        None \<Rightarrow> None
      | Some r \<Rightarrow> Some (r, if ServerGroupId l = [] then l\<lparr>ServerGroupId := ServerGroupId r\<rparr> else l))"
  by (induction rs) (auto simp: matchesGroup_def)

lemma findRemoteGroup_None:
  "findRemoteGroup l rs = None \<longleftrightarrow> (\<forall>r \<in> set rs. \<not> matchesGroup l r)"
  by (induction rs) (auto simp: matchesGroup_def)

lemma findRemoteGroup_Some:
  "findRemoteGroup l rs = Some (old, l1) \<Longrightarrow>
     old \<in> set rs \<and> matchesGroup l old \<and> ServerGroupType l1 = ServerGroupType l"
  by (auto simp: findRemoteGroup_find find_Some_iff split: option.splits if_splits)

lemma sgKeyOf_eq:
  "sgKeyOf l' = sgKeyOf l \<Longrightarrow> matchesGroup l r \<Longrightarrow> matchesGroup l' r"
  by (auto simp: sgKeyOf_def matchesGroup_def split: if_splits)

lemma matchesGroup_self: "matchesGroup l l"
  by (auto simp: matchesGroup_def)

lemma matchesGroup_withVpc [simp]: "matchesGroup l (withVpc v r) = matchesGroup l r"
  by (simp add: matchesGroup_def withVpc_def)

lemma typeAgrees_withVpc [simp]: "typeAgrees l (withVpc v r) = typeAgrees l r"
  by (simp add: typeAgrees_def withVpc_def)

text \<open>A pass over groups that all have a match of their type plans updates only.\<close>

lemma applyVGroupsLoop_updates_only:
  assumes "\<forall>l \<in> set todo. \<forall>r \<in> set remote. matchesGroup l r \<longrightarrow> typeAgrees l r"
    and "\<forall>l \<in> set todo. sgKeyOf l \<in> set updated \<or> (\<exists>r \<in> set remote. matchesGroup l r)"
  shows "\<exists>us planned'.
           applyVGroupsLoop vpcId todo planned remote acts updated
             = Inr (acts @ us, planned', remote)
           \<and> (\<forall>a \<in> set us. sgAction a = serverGroupActionUpdate)"
  using assms
proof (induction todo arbitrary: planned acts updated)
  case Nil
  show ?case by simp
next
  case (Cons l todo)
  have h1: "\<forall>l \<in> set todo. \<forall>r \<in> set remote. matchesGroup l r \<longrightarrow> typeAgrees l r"
    using Cons.prems(1) by simp
  show ?case
  proof (cases "sgKeyOf l \<in> set updated")
    case True
    have h2: "\<forall>l \<in> set todo. sgKeyOf l \<in> set updated \<or> (\<exists>r \<in> set remote. matchesGroup l r)"
      using Cons.prems(2) by simp
    show ?thesis
    proof (cases "findRemoteGroup l remote")
      case None
      from Cons.IH [OF h1 h2, of "planned @ [l]" acts] True None show ?thesis by simp
    next
      case (Some p)
      obtain old l1 where p: "p = (old, l1)" by (cases p)
      from Cons.IH [OF h1 h2, of "planned @ [l1]" acts] True Some p show ?thesis by simp
    qed
  next
    case False
    with Cons.prems(2) have "\<exists>r \<in> set remote. matchesGroup l r" by simp
    then obtain old l1 where f: "findRemoteGroup l remote = Some (old, l1)"
      using findRemoteGroup_None [of l remote] by (cases "findRemoteGroup l remote") auto
    from findRemoteGroup_Some [OF f]
    have o: "old \<in> set remote" "matchesGroup l old" "ServerGroupType l1 = ServerGroupType l"
      by simp_all
    with Cons.prems(1) have "typeAgrees l old" by simp
    with o have t: "\<not> (ServerGroupType l1 \<noteq> [] \<and> ServerGroupType l1 \<noteq> ServerGroupType old)"
      by (simp add: typeAgrees_def)
    have h2: "\<forall>l' \<in> set todo. sgKeyOf l' \<in> set (sgKeyOf l # updated)
                \<or> (\<exists>r \<in> set remote. matchesGroup l' r)"
      using Cons.prems(2) by auto
    from Cons.IH [OF h1 h2, of "planned @ [l1]"
                    "acts @ [ServerGroupAction serverGroupActionUpdate l1 old]"]
    obtain us planned' where
      r: "applyVGroupsLoop vpcId todo (planned @ [l1]) remote
            (acts @ [ServerGroupAction serverGroupActionUpdate l1 old]) (sgKeyOf l # updated)
          = Inr ((acts @ [ServerGroupAction serverGroupActionUpdate l1 old]) @ us, planned', remote)"
      and u: "\<forall>a \<in> set us. sgAction a = serverGroupActionUpdate"
      by blast
    from False f t r
    have "applyVGroupsLoop vpcId (l # todo) planned remote acts updated
            = Inr (acts @ (ServerGroupAction serverGroupActionUpdate l1 old # us), planned', remote)"
      by auto
    moreover from u have "\<forall>a \<in> set (ServerGroupAction serverGroupActionUpdate l1 old # us).
                             sgAction a = serverGroupActionUpdate"
      by simp
    ultimately show ?thesis by blast
  qed
qed

text \<open>
  A pass in which no type changes leaves every desired group with a match: the one
  it found, or the one appended for it or for a group of its key.
\<close>

lemma applyVGroupsLoop_covers:
  assumes "\<forall>l \<in> set todo. \<forall>r \<in> set remote \<union> set todo. matchesGroup l r \<longrightarrow> typeAgrees l r"
  shows "\<exists>acts' planned' app.
           applyVGroupsLoop vpcId todo planned remote acts updated
             = Inr (acts', planned', remote @ app)
           \<and> (\<forall>a \<in> set app. \<exists>l \<in> set todo. a = withVpc vpcId l)
           \<and> (\<forall>l \<in> set todo. sgKeyOf l \<in> set updated
                                \<or> (\<exists>r \<in> set (remote @ app). matchesGroup l r))"
  using assms
proof (induction todo arbitrary: planned remote acts updated)
  case Nil
  show ?case by simp
next
  case (Cons l todo)
  have e: "\<forall>l' \<in> set todo. \<forall>r \<in> set remote \<union> set todo. matchesGroup l' r \<longrightarrow> typeAgrees l' r"
    using Cons.prems by simp
  show ?case
  proof (cases "sgKeyOf l \<in> set updated")
    case True
    obtain l1 where
      s: "applyVGroupsLoop vpcId (l # todo) planned remote acts updated
            = applyVGroupsLoop vpcId todo (planned @ [l1]) remote acts updated"
      using True by (cases "findRemoteGroup l remote") auto
    from Cons.IH [OF e, of "planned @ [l1]" acts updated]
    obtain acts' planned' app where
      r: "applyVGroupsLoop vpcId todo (planned @ [l1]) remote acts updated
            = Inr (acts', planned', remote @ app)"
      and a: "\<forall>a \<in> set app. \<exists>l \<in> set todo. a = withVpc vpcId l"
      and c: "\<forall>l \<in> set todo. sgKeyOf l \<in> set updated
                \<or> (\<exists>r \<in> set (remote @ app). matchesGroup l r)"
      by blast
    from s r a c True show ?thesis by auto
  next
    case False
    show ?thesis
    proof (cases "findRemoteGroup l remote")
      case None
      let ?x = "withVpc vpcId l"
      have e': "\<forall>l' \<in> set todo. \<forall>r \<in> set (remote @ [?x]) \<union> set todo.
                  matchesGroup l' r \<longrightarrow> typeAgrees l' r"
        using Cons.prems by auto
      from Cons.IH [OF e', of "planned @ [?x]"
             "acts @ [ServerGroupAction serverGroupActionCreateAndAddBackendServers ?x ?x]"
             "sgKeyOf l # updated"]
      obtain acts' planned' app where
        r: "applyVGroupsLoop vpcId todo (planned @ [?x]) (remote @ [?x])
              (acts @ [ServerGroupAction serverGroupActionCreateAndAddBackendServers ?x ?x])
              (sgKeyOf l # updated)
            = Inr (acts', planned', (remote @ [?x]) @ app)"
        and a: "\<forall>a \<in> set app. \<exists>l \<in> set todo. a = withVpc vpcId l"
        and c: "\<forall>l' \<in> set todo. sgKeyOf l' \<in> set (sgKeyOf l # updated)
                  \<or> (\<exists>r \<in> set ((remote @ [?x]) @ app). matchesGroup l' r)"
        by blast
      from False None r
      have s: "applyVGroupsLoop vpcId (l # todo) planned remote acts updated
                 = Inr (acts', planned', remote @ (?x # app))"
        by simp
      have a': "\<forall>a \<in> set (?x # app). \<exists>l' \<in> set (l # todo). a = withVpc vpcId l'"
        using a by auto
      have c': "\<forall>l' \<in> set (l # todo). sgKeyOf l' \<in> set updated
                  \<or> (\<exists>r \<in> set (remote @ (?x # app)). matchesGroup l' r)"
      proof
        fix l'
        assume m: "l' \<in> set (l # todo)"
        show "sgKeyOf l' \<in> set updated \<or> (\<exists>r \<in> set (remote @ (?x # app)). matchesGroup l' r)"
        proof (cases "sgKeyOf l' = sgKeyOf l")
          case True
          from sgKeyOf_eq [OF True matchesGroup_self] have "matchesGroup l' ?x" by simp
          then show ?thesis by auto
        next
          case False
          with m c show ?thesis by auto
        qed
      qed
      from s a' c' show ?thesis by blast
    next
      case (Some p)
      obtain old l1 where p: "p = (old, l1)" by (cases p)
      with Some have f: "findRemoteGroup l remote = Some (old, l1)" by simp
      from findRemoteGroup_Some [OF f]
      have o: "old \<in> set remote" "matchesGroup l old" "ServerGroupType l1 = ServerGroupType l"
        by simp_all
      with Cons.prems have "typeAgrees l old" by simp
      with o have t: "\<not> (ServerGroupType l1 \<noteq> [] \<and> ServerGroupType l1 \<noteq> ServerGroupType old)"
        by (simp add: typeAgrees_def)
      from Cons.IH [OF e, of "planned @ [l1]"
             "acts @ [ServerGroupAction serverGroupActionUpdate l1 old]" "sgKeyOf l # updated"]
      obtain acts' planned' app where
        r: "applyVGroupsLoop vpcId todo (planned @ [l1]) remote
              (acts @ [ServerGroupAction serverGroupActionUpdate l1 old]) (sgKeyOf l # updated)
            = Inr (acts', planned', remote @ app)"
        and a: "\<forall>a \<in> set app. \<exists>l \<in> set todo. a = withVpc vpcId l"
        and c: "\<forall>l' \<in> set todo. sgKeyOf l' \<in> set (sgKeyOf l # updated)
                  \<or> (\<exists>r \<in> set (remote @ app). matchesGroup l' r)"
        by blast
      from False f t r
      have s: "applyVGroupsLoop vpcId (l # todo) planned remote acts updated
                 = Inr (acts', planned', remote @ app)"
        by auto
      have a': "\<forall>a \<in> set app. \<exists>l' \<in> set (l # todo). a = withVpc vpcId l'"
        using a by auto
      have c': "\<forall>l' \<in> set (l # todo). sgKeyOf l' \<in> set updated
                  \<or> (\<exists>r \<in> set (remote @ app). matchesGroup l' r)"
      proof
        fix l'
        assume m: "l' \<in> set (l # todo)"
        show "sgKeyOf l' \<in> set updated \<or> (\<exists>r \<in> set (remote @ app). matchesGroup l' r)"
        proof (cases "sgKeyOf l' = sgKeyOf l")
          case True
          from sgKeyOf_eq [OF True o(2)] o(1) show ?thesis by auto
        next
          case False
          with m c show ?thesis by auto
        qed
      qed
      from s a' c' show ?thesis by blast
    qed
  qed
qed

lemma applyVGroups_second_pass:
  assumes "noTypeChange (ServerGroups local) (ServerGroups remote @ ServerGroups local)"
  shows "\<exists>acts1 local1 remote1 acts2 local2.
           applyVGroups local remote = Inr (acts1, local1, remote1)
           \<and> VpcId (LBAttribute remote1) = VpcId (LBAttribute remote)
           \<and> applyVGroups local remote1 = Inr (acts2, local2, remote1)
           \<and> (\<forall>a \<in> set acts2. sgAction a = serverGroupActionUpdate)"
proof -
  let ?ls = "ServerGroups local" and ?rs = "ServerGroups remote" and ?v = "VpcId (LBAttribute remote)"
  from assms
  have e: "\<forall>l \<in> set ?ls. \<forall>r \<in> set ?rs \<union> set ?ls. matchesGroup l r \<longrightarrow> typeAgrees l r"
    by (auto simp: noTypeChange_def list_all_iff)
  from applyVGroupsLoop_covers [OF e, of ?v "[]" "[]" "[]"]
  obtain acts1 planned1 app where
    p1: "applyVGroupsLoop ?v ?ls [] ?rs [] [] = Inr (acts1, planned1, ?rs @ app)"
    and a: "\<forall>a \<in> set app. \<exists>l \<in> set ?ls. a = withVpc ?v l"
    and c: "\<forall>l \<in> set ?ls. \<exists>r \<in> set (?rs @ app). matchesGroup l r"
    by auto
  let ?remote1 = "remote\<lparr>ServerGroups := ?rs @ app\<rparr>"
  have h1: "\<forall>l \<in> set ?ls. \<forall>r \<in> set (?rs @ app). matchesGroup l r \<longrightarrow> typeAgrees l r"
    using e a by fastforce
  have h2: "\<forall>l \<in> set ?ls. sgKeyOf l \<in> set [] \<or> (\<exists>r \<in> set (?rs @ app). matchesGroup l r)"
    using c by simp
  from applyVGroupsLoop_updates_only [OF h1 h2, of ?v "[]" "[]"]
  obtain us planned2 where
    p2: "applyVGroupsLoop ?v ?ls [] (?rs @ app) [] [] = Inr (us, planned2, ?rs @ app)"
    and u: "\<forall>a \<in> set us. sgAction a = serverGroupActionUpdate"
    by auto
  from p1 have "applyVGroups local remote
                  = Inr (acts1, local\<lparr>ServerGroups := planned1\<rparr>, ?remote1)"
    by (simp add: applyVGroups_def)
  moreover from p2 have "applyVGroups local ?remote1
                  = Inr (us, local\<lparr>ServerGroups := planned2\<rparr>, ?remote1)"
    by (simp add: applyVGroups_def)
  ultimately show ?thesis using u by auto
qed

lemma matchesListener_ListenerId [simp]:
  "matchesListener (l\<lparr>ListenerId := x\<rparr>) r = matchesListener l r"
  by (simp add: matchesListener_def isListenerPortMatch_def)

text \<open>
  After the loop over the remote listeners, a desired listener that matches one of
  them has the id of one of them.
\<close>

lemma planListenerDeletes_ids:
  assumes "planListenerDeletes managed um rs ls = (ls2, dels)"
    and "\<forall>l \<in> set ls. (\<exists>r \<in> R. matchesListener l r) \<longrightarrow> (\<exists>r \<in> R. ListenerId l = ListenerId r)"
  shows "(\<forall>l \<in> set ls2. (\<exists>r \<in> R \<union> set rs. matchesListener l r)
                          \<longrightarrow> (\<exists>r \<in> R \<union> set rs. ListenerId l = ListenerId r))
         \<and> (\<forall>a \<in> set dels. Action a = listenerActionDelete)"
  using assms
proof (induction rs arbitrary: ls R ls2 dels)
  case Nil
  then show ?case by simp
next
  case (Cons r rs)
  let ?ls' = "map (\<lambda>l. if matchesListener l r then l\<lparr>ListenerId := ListenerId r\<rparr> else l) ls"
  have inv: "\<forall>l \<in> set ?ls'. (\<exists>x \<in> R \<union> {r}. matchesListener l x)
                              \<longrightarrow> (\<exists>x \<in> R \<union> {r}. ListenerId l = ListenerId x)"
  proof
    fix l'
    assume "l' \<in> set ?ls'"
    then obtain l where l: "l \<in> set ls"
      and l': "l' = (if matchesListener l r then l\<lparr>ListenerId := ListenerId r\<rparr> else l)"
      by auto
    show "(\<exists>x \<in> R \<union> {r}. matchesListener l' x) \<longrightarrow> (\<exists>x \<in> R \<union> {r}. ListenerId l' = ListenerId x)"
    proof (cases "matchesListener l r")
      case True
      with l' show ?thesis by simp
    next
      case False
      with l' l Cons.prems(2) show ?thesis by auto
    qed
  qed
  obtain ls3 dels3 where rec: "planListenerDeletes managed um rs ?ls' = (ls3, dels3)"
    by (metis prod.exhaust)
  from Cons.IH [OF rec inv]
  have ih: "(\<forall>l \<in> set ls3. (\<exists>x \<in> R \<union> {r} \<union> set rs. matchesListener l x)
                             \<longrightarrow> (\<exists>x \<in> R \<union> {r} \<union> set rs. ListenerId l = ListenerId x))
            \<and> (\<forall>a \<in> set dels3. Action a = listenerActionDelete)" .
  from Cons.prems(1) rec
  have "ls2 = ls3 \<and> (dels = dels3 \<or> dels = ListenerAction listenerActionDelete None (Some r) [] # dels3)"
    by (auto simp: Let_def split: if_splits)
  with ih show ?case by auto
qed

lemma planListenerUpdates_create:
  "a \<in> set (planListenerUpdates lbId rs l) \<Longrightarrow> Action a = listenerActionCreate \<Longrightarrow>
     Local a = Some l \<and> (\<forall>r \<in> set rs. ListenerId l \<noteq> ListenerId r)"
  by (auto simp: planListenerUpdates_def Let_def filter_empty_conv split: if_splits)

lemma applyListeners_no_create_for_matched:
  assumes "applyListeners managed force local remote = Inr (acts, local')"
    and "a \<in> set acts" and "Action a = listenerActionCreate"
  shows "\<exists>l. Local a = Some l \<and> \<not> list_ex (matchesListener l) (Listeners remote)"
proof (cases "LBIsUserManaged (LBAttribute local) \<and> \<not> force")
  case True
  with assms show ?thesis by (simp add: applyListeners_def)
next
  case False
  with assms(1) obtain ls1 where
    as: "associateListeners (ServerGroups local) (Listeners local) = Inr ls1"
    by (auto simp: applyListeners_def split: sum.splits)
  obtain ls2 dels where
    d: "planListenerDeletes managed (LBIsUserManaged (LBAttribute local)) (Listeners remote) ls1
          = (ls2, dels)"
    by (metis prod.exhaust)
  from assms(1) False as d
  have acts: "acts = dels @ concat (map (planListenerUpdates (LoadBalancerId (LBAttribute remote))
                                           (Listeners remote)) ls2)"
    by (auto simp: applyListeners_def)
  from planListenerDeletes_ids [OF d, of "{}"]
  have ids: "\<forall>l \<in> set ls2. (\<exists>r \<in> set (Listeners remote). matchesListener l r)
                \<longrightarrow> (\<exists>r \<in> set (Listeners remote). ListenerId l = ListenerId r)"
    and del: "\<forall>a \<in> set dels. Action a = listenerActionDelete"
    by auto
  from assms(2,3) acts del obtain l where l: "l \<in> set ls2"
    and a: "a \<in> set (planListenerUpdates (LoadBalancerId (LBAttribute remote)) (Listeners remote) l)"
    by auto
  from planListenerUpdates_create [OF a assms(3)]
  have "Local a = Some l" and "\<forall>r \<in> set (Listeners remote). ListenerId l \<noteq> ListenerId r"
    by simp_all
  with ids l have "Local a = Some l \<and> \<not> list_ex (matchesListener l) (Listeners remote)"
    by (auto simp: list_ex_iff)
  then show ?thesis by blast
qed

text \<open>
  C1, as stated: the second pass plans an empty action set. For a desired model with
  one server group and nothing yet at the cloud, the first pass plans the creation and
  appends the group to the remote collection; the second pass against that collection
  finds the group by name and plans an update for it.
\<close>

theorem applyVGroups_second_pass_updates:
  "applyVGroups webLocal emptyLB
     = Inr ([ServerGroupAction serverGroupActionCreateAndAddBackendServers
               webGroupMade webGroupMade],
            webLocal\<lparr>ServerGroups := [webGroupMade]\<rparr>,
            emptyLB\<lparr>ServerGroups := [webGroupMade]\<rparr>)
   \<and> applyVGroups webLocal (emptyLB\<lparr>ServerGroups := [webGroupMade]\<rparr>)
     = Inr ([ServerGroupAction serverGroupActionUpdate webGroup webGroupMade],
            webLocal, emptyLB\<lparr>ServerGroups := [webGroupMade]\<rparr>)"
  by (simp add: applyVGroups_def webLocal_def emptyLB_def webGroup_def webGroupMade_def
        withVpc_def sgKeyOf_def)

text \<open>
  C1, amended: when no desired server group asks for another type than a remote or
  desired group it matches, the first pass of \<open>applyVGroups\<close> succeeds, and a second
  pass of the same desired model against the remote collection the first pass left
  (the observed groups and the appended created ones) succeeds, appends nothing and
  plans update actions only: no create. And whatever \<open>applyListeners\<close> plans, a create
  action is for a desired listener that no remote listener matches by protocol and
  port; for a matched listener it plans updates.
\<close>

theorem second_pass_plans_no_create:
  "(noTypeChange (ServerGroups local) (ServerGroups remote @ ServerGroups local) \<longrightarrow>
      (\<exists>acts1 local1 remote1 acts2 local2.
         applyVGroups local remote = Inr (acts1, local1, remote1)
         \<and> applyVGroups local remote1 = Inr (acts2, local2, remote1)
         \<and> (\<forall>a \<in> set acts2. sgAction a = serverGroupActionUpdate)))
   \<and> (applyListeners managed force local remote = Inr (acts, local') \<longrightarrow>
      (\<forall>a \<in> set acts. Action a = listenerActionCreate \<longrightarrow>
         (\<exists>l. Local a = Some l \<and> \<not> list_ex (matchesListener l) (Listeners remote))))"
proof (intro conjI impI ballI)
  assume "noTypeChange (ServerGroups local) (ServerGroups remote @ ServerGroups local)"
  from applyVGroups_second_pass [OF this]
  show "\<exists>acts1 local1 remote1 acts2 local2.
         applyVGroups local remote = Inr (acts1, local1, remote1)
         \<and> applyVGroups local remote1 = Inr (acts2, local2, remote1)
         \<and> (\<forall>a \<in> set acts2. sgAction a = serverGroupActionUpdate)"
    by blast
next
  fix a
  assume "applyListeners managed force local remote = Inr (acts, local')"
    and "a \<in> set acts" and "Action a = listenerActionCreate"
  then show "\<exists>l. Local a = Some l \<and> \<not> list_ex (matchesListener l) (Listeners remote)"
    by (rule applyListeners_no_create_for_matched)
qed

lemma noTypeChange_web:
  "noTypeChange (ServerGroups webLocal) (ServerGroups emptyLB @ ServerGroups webLocal)"
  by (simp add: noTypeChange_def webLocal_def emptyLB_def typeAgrees_def)

lemma applyListeners_web:
  "applyListeners managedDemo False webLocal (emptyLB\<lparr>Listeners := [otherListener]\<rparr>)
     = Inr ([ListenerAction listenerActionDelete None (Some otherListener) [],
             ListenerAction listenerActionCreate (Some webListener) None ''nlb-1''],
            webLocal)"
  by (simp add: applyListeners_def webLocal_def emptyLB_def webGroup_def webListener_def
        otherListener_def matchesListener_def isListenerPortMatch_def planListenerUpdates_def)

theorem second_pass_plans_no_create_witness:
  "(\<exists>acts1 local1 remote1 acts2 local2.
      applyVGroups webLocal emptyLB = Inr (acts1, local1, remote1)
      \<and> applyVGroups webLocal remote1 = Inr (acts2, local2, remote1)
      \<and> list_all (\<lambda>a. sgAction a = serverGroupActionUpdate) acts2)
   \<and> \<not> list_ex (matchesListener webListener) [otherListener]"
proof -
  note t = second_pass_plans_no_create
      [where local = webLocal and remote = emptyLB, THEN conjunct1]
  from t noTypeChange_web
  have a: "\<exists>acts1 local1 remote1 acts2 local2.
      applyVGroups webLocal emptyLB = Inr (acts1, local1, remote1)
      \<and> applyVGroups webLocal remote1 = Inr (acts2, local2, remote1)
      \<and> list_all (\<lambda>a. sgAction a = serverGroupActionUpdate) acts2"
    by (simp add: list_all_iff)
  note u = second_pass_plans_no_create
      [where managed = managedDemo and force = False and local = webLocal
         and remote = "emptyLB\<lparr>Listeners := [otherListener]\<rparr>"
         and acts = "[ListenerAction listenerActionDelete None (Some otherListener) [],
                      ListenerAction listenerActionCreate (Some webListener) None ''nlb-1'']"
         and local' = webLocal, THEN conjunct2]
  from u applyListeners_web
  have b: "\<not> list_ex (matchesListener webListener) [otherListener]"
    by simp
  from a b show ?thesis by simp
qed

end
